theory Spec2Isabelle
  imports Main "HOL-Library.Multiset"
begin

section \<open>Identifiers\<close>

text \<open>
  An ObjectId is kept in the form its \<open>toString()\<close> gives: 24 lower-case hexadecimal
  digits. \<open>Types.ObjectId.isValid\<close> and the constructor \<open>new Types.ObjectId(s)\<close> belong
  to the driver, not to the repository; they are modelled on strings: a string is valid
  when it has 24 hexadecimal digits, and the constructor reads the digits without regard
  to their case. The theorems below use \<open>isValid\<close> only through the guards of the code.
\<close>

type_synonym objectId = string

definition isHexDigit :: "char \<Rightarrow> bool" where
  "isHexDigit c = (c \<in> set ''0123456789abcdefABCDEF'')"

definition isValid :: "string \<Rightarrow> bool" where
  "isValid s = (length s = 24 \<and> list_all isHexDigit s)"

definition hexLower :: "char \<Rightarrow> char" where
  "hexLower c =
     (if c = CHR ''A'' then CHR ''a'' else if c = CHR ''B'' then CHR ''b''
      else if c = CHR ''C'' then CHR ''c'' else if c = CHR ''D'' then CHR ''d''
      else if c = CHR ''E'' then CHR ''e'' else if c = CHR ''F'' then CHR ''f'' else c)"

definition ObjectId :: "string \<Rightarrow> objectId" where
  "ObjectId s = map hexLower s"

text \<open>
  A value that arrives where a user id is declared as \<open>string\<close>. The declaration is
  not checked at run time: \<open>JwtStrategy.validate\<close> puts the user's \<open>_id\<close>, an ObjectId,
  into \<open>req.user.userId\<close>, and the controller hands it on as it is. \<open>isValid\<close> accepts
  every ObjectId, the constructor copies it, and \<open>===\<close> between an ObjectId and a string
  is false. The service functions other than \<open>sendMessage\<close> use their ids only through
  \<open>isValid\<close> and the constructor, for which an ObjectId and its string are the same;
  they are modelled on strings.
\<close>

datatype idValue = IdString string | IdObject objectId

definition isValidId :: "idValue \<Rightarrow> bool" where
  "isValidId v = (case v of IdString s \<Rightarrow> isValid s | IdObject i \<Rightarrow> True)"

definition toObjectId :: "idValue \<Rightarrow> objectId" where
  "toObjectId v = (case v of IdString s \<Rightarrow> ObjectId s | IdObject i \<Rightarrow> i)"

definition strictEquals :: "idValue \<Rightarrow> string \<Rightarrow> bool" where
  "strictEquals v s = (case v of IdString t \<Rightarrow> t = s | IdObject i \<Rightarrow> False)"

section \<open>Data model\<close>

text \<open>
  The schema classes \<open>User\<close> and \<open>Message\<close>. A \<open>Date\<close> is its number of milliseconds,
  \<open>null\<close> is \<open>None\<close>. The fields \<open>from\<close>, \<open>to\<close> and \<open>_id\<close> of a message are written
  \<open>from_id\<close>, \<open>to_id\<close> and \<open>msg_id\<close>. Of the two timestamps that the schema option
  \<open>timestamps: true\<close> maintains, \<open>createdAt\<close> is the one the code reads; \<open>updatedAt\<close>
  is read nowhere and is left out.
\<close>

record user =
  email :: string
  username :: string
  isActive :: bool

record message =
  msg_id :: objectId
  from_id :: objectId
  to_id :: objectId
  content :: string
  delivered :: bool
  read :: bool
  deliveredAt :: "int option"
  readAt :: "int option"
  messageType :: string
  attachmentUrl :: "string option"
  isDeleted :: bool
  deletedAt :: "int option"
  createdAt :: int

text \<open>The body of \<open>POST /chat/send\<close> (class \<open>SendMessageDto\<close>).\<close>

record sendMessageDto =
  dto_to :: string
  dto_content :: string
  dto_messageType :: "string option"
  dto_attachmentUrl :: "string option"

text \<open>The payload that \<open>publishMessageToQueue\<close> builds.\<close>

record payload =
  p_messageId :: string
  p_from :: string
  p_to :: string
  p_content :: string
  p_messageType :: string
  p_timestamp :: int

text \<open>
  A document as the queries return it: \<open>populate(path, 'username email')\<close> replaces the
  reference by the user's \<open>_id\<close>, \<open>username\<close> and \<open>email\<close>, or by \<open>null\<close> when no such user
  exists. A path that was not populated is \<open>None\<close> as well.
\<close>

record userRef =
  ref_id :: objectId
  ref_username :: string
  ref_email :: string

record populated =
  doc :: message
  from_user :: "userRef option"
  to_user :: "userRef option"

datatype error =
    BadRequestException string
  | NotFoundException string
  | UnauthorizedException string
  | ValidationError "string list"
  | Error string
  | MongoServerError string
  | BSONError string

text \<open>
  The state the service works on: the collection \<open>users\<close> keyed by \<open>_id\<close>, the collection
  \<open>messages\<close> in its natural order, the events the broker has accepted, the delivery
  tags the consumer has acknowledged, and the lines written with \<open>console.error\<close>.
\<close>

record world =
  users :: "objectId \<Rightarrow> user option"
  messages :: "message list"
  queue :: "(string \<times> payload) list"
  acked :: "nat list"
  stderr :: "string list"

text \<open>
  What a call takes from its surroundings: the clock (\<open>new Date()\<close>), the \<open>_id\<close> that the
  model constructor draws, and the error that \<open>rabbitMQClient.emit\<close> raises, if it does.
\<close>

record env =
  now :: int
  newObjectId :: objectId
  emitError :: "error option"

section \<open>The store\<close>

text \<open>
  The query primitives of the document store. \<open>sort({createdAt: -1})\<close> is newest first;
  the store leaves the order of documents with equal keys open, and the model keeps them
  in collection order. \<open>skip\<close> is applied before \<open>limit\<close> whatever the order of the two
  calls, and the store reads \<open>limit(0)\<close> as no limit.
\<close>

definition sortNewestFirst :: "message list \<Rightarrow> message list" where
  "sortNewestFirst ms = sort_key (\<lambda>m. - createdAt m) ms"

text \<open>
  What the store may hand out for \<open>sort({createdAt: -1})\<close> on the documents \<open>ms\<close>: any
  arrangement of the same documents with creation times descending.
\<close>

definition newestFirstOf :: "message list \<Rightarrow> message list \<Rightarrow> bool" where
  "newestFirstOf ms arranged =
     (mset arranged = mset ms \<and> sorted_wrt (\<lambda>a b. createdAt b \<le> createdAt a) arranged)"

definition limit_docs :: "nat \<Rightarrow> 'a list \<Rightarrow> 'a list" where
  "limit_docs n xs = (if n = 0 then xs else take n xs)"

definition skip_docs :: "nat \<Rightarrow> 'a list \<Rightarrow> 'a list" where
  "skip_docs n xs = drop n xs"

definition populateRef :: "world \<Rightarrow> objectId \<Rightarrow> userRef option" where
  "populateRef w i =
     (case users w i of
        None \<Rightarrow> None
      | Some u \<Rightarrow> Some \<lparr>ref_id = i, ref_username = username u, ref_email = email u\<rparr>)"

definition populateFrom :: "world \<Rightarrow> message \<Rightarrow> populated" where
  "populateFrom w m = \<lparr>doc = m, from_user = populateRef w (from_id m), to_user = None\<rparr>"

definition populateFromTo :: "world \<Rightarrow> message \<Rightarrow> populated" where
  "populateFromTo w m =
     \<lparr>doc = m, from_user = populateRef w (from_id m), to_user = populateRef w (to_id m)\<rparr>"

text \<open>
  \<open>findOneAndUpdate(filter, update)\<close>: the first document that matches is updated; the
  result is the document before and after the update, or \<open>None\<close> when none matches.
\<close>

fun findOneAndUpdate ::
  "(message \<Rightarrow> bool) \<Rightarrow> (message \<Rightarrow> message) \<Rightarrow> message list
     \<Rightarrow> (message \<times> message) option \<times> message list" where
  "findOneAndUpdate P f [] = (None, [])"
| "findOneAndUpdate P f (m # ms) =
     (if P m then (Some (m, f m), f m # ms)
      else (case findOneAndUpdate P f ms of (r, ms') \<Rightarrow> (r, m # ms')))"

text \<open>\<open>updateMany(filter, update)\<close> with its \<open>modifiedCount\<close>.\<close>

definition updateMany ::
  "(message \<Rightarrow> bool) \<Rightarrow> (message \<Rightarrow> message) \<Rightarrow> message list \<Rightarrow> nat \<times> message list" where
  "updateMany P f ms =
     (length (filter (\<lambda>m. P m \<and> f m \<noteq> m) ms), map (\<lambda>m. if P m then f m else m) ms)"

section \<open>UsersService\<close>

definition findById :: "world \<Rightarrow> idValue \<Rightarrow> user option" where
  "findById w i = (if \<not> isValidId i then None else users w (toObjectId i))"

section \<open>ChatService: queries\<close>

definition getConversation ::
  "world \<Rightarrow> string \<Rightarrow> string \<Rightarrow> nat \<Rightarrow> nat \<Rightarrow> error + populated list" where
  "getConversation w userId1 userId2 limit skip =
     (if \<not> isValid userId1 \<or> \<not> isValid userId2
      then Inl (BadRequestException ''Invalid user IDs'')
      else
        let found = map (populateFromTo w)
              (limit_docs limit (skip_docs skip (sortNewestFirst
                (filter (\<lambda>m. (from_id m = ObjectId userId1 \<and> to_id m = ObjectId userId2
                              \<or> from_id m = ObjectId userId2 \<and> to_id m = ObjectId userId1)
                             \<and> isDeleted m = False)
                   (messages w)))))
        in Inr (rev found))"

text \<open>
  \<open>getConversation\<close> with the arrangement that the store gives the sorted documents
  of this query as a parameter \<open>arrange\<close>; \<open>getConversation\<close> above is the instance
  \<open>sortNewestFirst\<close>.
\<close>

definition getConversationUnder ::
  "(message list \<Rightarrow> message list) \<Rightarrow> world \<Rightarrow> string \<Rightarrow> string \<Rightarrow> nat \<Rightarrow> nat
     \<Rightarrow> error + populated list" where
  "getConversationUnder arrange w userId1 userId2 limit skip =
     (if \<not> isValid userId1 \<or> \<not> isValid userId2
      then Inl (BadRequestException ''Invalid user IDs'')
      else
        let found = map (populateFromTo w)
              (limit_docs limit (skip_docs skip (arrange
                (filter (\<lambda>m. (from_id m = ObjectId userId1 \<and> to_id m = ObjectId userId2
                              \<or> from_id m = ObjectId userId2 \<and> to_id m = ObjectId userId1)
                             \<and> isDeleted m = False)
                   (messages w)))))
        in Inr (rev found))"

definition getInboxMessages :: "world \<Rightarrow> string \<Rightarrow> nat \<Rightarrow> nat \<Rightarrow> error + populated list" where
  "getInboxMessages w userId limit skip =
     (if \<not> isValid userId then Inl (BadRequestException ''Invalid user ID'')
      else Inr (map (populateFrom w)
             (limit_docs limit (skip_docs skip (sortNewestFirst
               (filter (\<lambda>m. to_id m = ObjectId userId \<and> isDeleted m = False) (messages w)))))))"

definition getUnreadMessages :: "world \<Rightarrow> string \<Rightarrow> error + populated list" where
  "getUnreadMessages w userId =
     (if \<not> isValid userId then Inl (BadRequestException ''Invalid user ID'')
      else Inr (map (populateFrom w)
             (sortNewestFirst
               (filter (\<lambda>m. to_id m = ObjectId userId \<and> read m = False \<and> isDeleted m = False)
                  (messages w)))))"

definition getUnreadCount :: "world \<Rightarrow> string \<Rightarrow> error + nat" where
  "getUnreadCount w userId =
     (if \<not> isValid userId then Inr 0
      else Inr (length
             (filter (\<lambda>m. to_id m = ObjectId userId \<and> read m = False \<and> isDeleted m = False)
                (messages w))))"

section \<open>The Message schema: validation and the pre-save hook\<close>

text \<open>
  \<open>String.prototype.trim\<close> on the white space that a \<open>char\<close> can hold: tab, line feed,
  vertical tab, form feed, carriage return, space and no-break space.
\<close>

definition isWhiteSpace :: "char \<Rightarrow> bool" where
  "isWhiteSpace c =
     (c \<in> set [CHR 0x09, CHR 0x0A, CHR 0x0B, CHR 0x0C, CHR 0x0D, CHR 0x20, CHR 0xA0])"

definition trim :: "string \<Rightarrow> string" where
  "trim s = rev (dropWhile isWhiteSpace (rev (dropWhile isWhiteSpace s)))"

text \<open>
  The validators of the schema paths: \<open>content\<close> is required (an empty string does not
  count) and has at most 5000 characters; \<open>messageType\<close> is one of four names. The result
  is the list of the paths that fail.
\<close>

definition validate :: "message \<Rightarrow> string list" where
  "validate m =
     (if content m = [] \<or> 5000 < length (content m) then [''content''] else []) @
     (if messageType m \<in> set [''text'', ''image'', ''video'', ''file''] then []
      else [''messageType''])"

text \<open>\<open>MessageSchema.pre('save')\<close>.\<close>

definition preSave :: "message \<Rightarrow> error + message" where
  "preSave m =
     (if from_id m = to_id m then Inl (Error ''Cannot send message to yourself'')
      else
        let m1 = (if content m \<noteq> [] then m\<lparr>content := trim (content m)\<rparr> else m)
        in if content m1 = [] then Inl (Error ''Message content cannot be empty'')
           else Inr m1)"

text \<open>
  \<open>document.save()\<close> of a new document: validation, then the pre-save hook, then the
  insertion, which the store refuses when the \<open>_id\<close> is taken.
\<close>

definition save :: "world \<Rightarrow> message \<Rightarrow> error + message \<times> world" where
  "save w m =
     (case validate m of
        p # ps \<Rightarrow> Inl (ValidationError (p # ps))
      | [] \<Rightarrow>
          (case preSave m of
             Inl err \<Rightarrow> Inl err
           | Inr m1 \<Rightarrow>
               if msg_id m1 \<in> set (map msg_id (messages w))
               then Inl (MongoServerError ''E11000 duplicate key error'')
               else Inr (m1, w\<lparr>messages := messages w @ [m1]\<rparr>)))"

section \<open>ChatService: sending\<close>

definition console_error :: "world \<Rightarrow> string \<Rightarrow> world" where
  "console_error w line = w\<lparr>stderr := stderr w @ [line]\<rparr>"

text \<open>
  The document that \<open>new this.messageModel({...})\<close> builds, with the defaults of the
  schema. \<open>createdAt\<close> is stamped by the first save, which happens in the same call.
\<close>

definition newMessage :: "env \<Rightarrow> idValue \<Rightarrow> sendMessageDto \<Rightarrow> message" where
  "newMessage e fromUserId dto =
     \<lparr>msg_id = newObjectId e,
      from_id = toObjectId fromUserId,
      to_id = ObjectId (dto_to dto),
      content = trim (dto_content dto),
      delivered = False,
      read = False,
      deliveredAt = None,
      readAt = None,
      messageType =
        (case dto_messageType dto of None \<Rightarrow> ''text''
         | Some t \<Rightarrow> if t = [] then ''text'' else t),
      attachmentUrl =
        (case dto_attachmentUrl dto of None \<Rightarrow> None
         | Some a \<Rightarrow> if a = [] then None else Some a),
      isDeleted = False,
      deletedAt = None,
      createdAt = now e\<rparr>"

definition publishMessageToQueue :: "env \<Rightarrow> world \<Rightarrow> message \<Rightarrow> (error + unit) \<times> world" where
  "publishMessageToQueue e w m =
     (let pl = \<lparr>p_messageId = msg_id m, p_from = from_id m, p_to = to_id m,
                 p_content = content m, p_messageType = messageType m,
                 p_timestamp = createdAt m\<rparr>
      in case emitError e of
           Some err \<Rightarrow> (Inl err, w)
         | None \<Rightarrow> (Inr (), w\<lparr>queue := queue w @ [(''message.sent'', pl)]\<rparr>))"

definition sendMessage ::
  "env \<Rightarrow> world \<Rightarrow> idValue \<Rightarrow> sendMessageDto \<Rightarrow> (error + populated) \<times> world" where
  "sendMessage e w fromUserId dto =
     (case findById w fromUserId of
        None \<Rightarrow> (Inl (NotFoundException ''Sender not found''), w)
      | Some sender \<Rightarrow>
     (case findById w (IdString (dto_to dto)) of
        None \<Rightarrow> (Inl (NotFoundException ''Receiver not found''), w)
      | Some receiver \<Rightarrow>
     if strictEquals fromUserId (dto_to dto)
     then (Inl (BadRequestException ''Cannot send message to yourself''), w)
     else if \<not> isValidId fromUserId \<or> \<not> isValid (dto_to dto)
     then (Inl (BSONError ''input must be a 24 character hex string''), w)
     else
       (case save w (newMessage e fromUserId dto) of
          Inl err \<Rightarrow> (Inl err, w)
        | Inr (savedMessage, w1) \<Rightarrow>
            let w2 = (case publishMessageToQueue e w1 savedMessage of
                        (Inr u, w') \<Rightarrow> w'
                      | (Inl err, w') \<Rightarrow>
                          console_error w' ''Failed to publish message to RabbitMQ:'')
            in (Inr (populateFromTo w2 savedMessage), w2))))"

section \<open>The way from the request to sendMessage\<close>

text \<open>
  \<open>JwtStrategy.validate\<close> on the subject of a verified token: what it returns becomes
  \<open>req.user\<close> (its \<open>role\<close> is left out here). \<open>ChatController.sendMessage\<close> passes
  \<open>req.user.userId\<close> and the body to the service; its result stands for the response.
\<close>

record authUser =
  au_userId :: objectId
  au_email :: string
  au_username :: string

definition jwtValidate :: "world \<Rightarrow> string \<Rightarrow> error + authUser" where
  "jwtValidate w sub =
     (case findById w (IdString sub) of
        None \<Rightarrow> Inl (UnauthorizedException ''User not found'')
      | Some usr \<Rightarrow>
          if \<not> isActive usr then Inl (UnauthorizedException ''User account is deactivated'')
          else Inr \<lparr>au_userId = ObjectId sub, au_email = email usr,
                     au_username = username usr\<rparr>)"

definition ChatController_sendMessage ::
  "env \<Rightarrow> world \<Rightarrow> authUser \<Rightarrow> sendMessageDto \<Rightarrow> (error + populated) \<times> world" where
  "ChatController_sendMessage e w reqUser dto = sendMessage e w (IdObject (au_userId reqUser)) dto"

section \<open>ChatService: state transitions\<close>

definition markAsRead ::
  "env \<Rightarrow> world \<Rightarrow> string \<Rightarrow> string \<Rightarrow> (error + populated) \<times> world" where
  "markAsRead e w messageId userId =
     (if \<not> isValid messageId \<or> \<not> isValid userId
      then (Inl (BadRequestException ''Invalid IDs''), w)
      else
        (case findOneAndUpdate
                (\<lambda>m. msg_id m = ObjectId messageId \<and> to_id m = ObjectId userId
                      \<and> isDeleted m = False)
                (\<lambda>m. m\<lparr>read := True, readAt := Some (now e),
                         delivered := True, deliveredAt := Some (now e)\<rparr>)
                (messages w) of
           (None, ms) \<Rightarrow> (Inl (NotFoundException ''Message not found or unauthorized''), w)
         | (Some (before, after), ms) \<Rightarrow>
             (Inr (populateFrom w after), w\<lparr>messages := ms\<rparr>)))"

definition markConversationAsRead ::
  "env \<Rightarrow> world \<Rightarrow> string \<Rightarrow> string \<Rightarrow> (error + nat) \<times> world" where
  "markConversationAsRead e w userId fromUserId =
     (if \<not> isValid userId \<or> \<not> isValid fromUserId
      then (Inl (BadRequestException ''Invalid user IDs''), w)
      else
        (case updateMany
                (\<lambda>m. from_id m = ObjectId fromUserId \<and> to_id m = ObjectId userId
                      \<and> read m = False \<and> isDeleted m = False)
                (\<lambda>m. m\<lparr>read := True, readAt := Some (now e),
                         delivered := True, deliveredAt := Some (now e)\<rparr>)
                (messages w) of
           (modifiedCount, ms) \<Rightarrow> (Inr modifiedCount, w\<lparr>messages := ms\<rparr>)))"

definition deleteMessage ::
  "env \<Rightarrow> world \<Rightarrow> string \<Rightarrow> string \<Rightarrow> (error + unit) \<times> world" where
  "deleteMessage e w messageId userId =
     (if \<not> isValid messageId \<or> \<not> isValid userId
      then (Inl (BadRequestException ''Invalid IDs''), w)
      else
        (case findOneAndUpdate
                (\<lambda>m. msg_id m = ObjectId messageId
                      \<and> (from_id m = ObjectId userId \<or> to_id m = ObjectId userId))
                (\<lambda>m. m\<lparr>isDeleted := True, deletedAt := Some (now e)\<rparr>)
                (messages w) of
           (None, ms) \<Rightarrow> (Inl (NotFoundException ''Message not found or unauthorized''), w)
         | (Some (before, after), ms) \<Rightarrow> (Inr (), w\<lparr>messages := ms\<rparr>)))"

text \<open>
  \<open>findByIdAndUpdate(messageId, update)\<close> is \<open>findOneAndUpdate\<close> with the filter
  \<open>{_id: messageId}\<close>, the string cast to an ObjectId by the schema.
\<close>

definition markAsDelivered :: "env \<Rightarrow> world \<Rightarrow> string \<Rightarrow> (error + unit) \<times> world" where
  "markAsDelivered e w messageId =
     (if \<not> isValid messageId then (Inr (), w)
      else
        (case findOneAndUpdate
                (\<lambda>m. msg_id m = ObjectId messageId)
                (\<lambda>m. m\<lparr>delivered := True, deliveredAt := Some (now e)\<rparr>)
                (messages w) of
           (r, ms) \<Rightarrow> (Inr (), w\<lparr>messages := ms\<rparr>)))"

section \<open>ChatService: the chat list\<close>

text \<open>
  The aggregation pipeline of \<open>getChatList\<close>, stage by stage. The key of \<open>$group\<close> is the
  other participant of a message.
\<close>

definition counterpart :: "objectId \<Rightarrow> message \<Rightarrow> objectId" where
  "counterpart userObjectId m = (if from_id m = userObjectId then to_id m else from_id m)"

definition unreadFlag :: "objectId \<Rightarrow> message \<Rightarrow> nat" where
  "unreadFlag userObjectId m = (if to_id m = userObjectId \<and> read m = False then 1 else 0)"

record groupDoc =
  g_id :: objectId
  g_lastMessage :: message
  g_unreadCount :: nat

text \<open>
  \<open>$group\<close> over documents that arrive sorted: one output document per key, \<open>$first\<close> is
  the first document of the group in arrival order, \<open>$sum\<close> adds over the whole group.
\<close>

fun group_stage :: "objectId \<Rightarrow> message list \<Rightarrow> groupDoc list" where
  "group_stage u [] = []"
| "group_stage u (m # ms) =
     \<lparr>g_id = counterpart u m,
      g_lastMessage = m,
      g_unreadCount =
        sum_list (map (unreadFlag u) (m # filter (\<lambda>x. counterpart u x = counterpart u m) ms))\<rparr>
     # group_stage u (filter (\<lambda>x. counterpart u x \<noteq> counterpart u m) ms)"

text \<open>
  \<open>$lookup\<close> into \<open>users\<close> on \<open>_id\<close> followed by \<open>$unwind\<close>: a group whose key is no
  user's \<open>_id\<close> is dropped.
\<close>

definition lookup_unwind :: "world \<Rightarrow> groupDoc list \<Rightarrow> (groupDoc \<times> user) list" where
  "lookup_unwind w gs =
     concat (map (\<lambda>g. case users w (g_id g) of None \<Rightarrow> [] | Some usr \<Rightarrow> [(g, usr)]) gs)"

record lastMessageView =
  lm_content :: string
  lm_createdAt :: int
  lm_read :: bool

record chatEntry =
  entry_userId :: objectId
  entry_username :: string
  entry_email :: string
  entry_lastMessage :: lastMessageView
  entry_unreadCount :: nat

definition project :: "groupDoc \<times> user \<Rightarrow> chatEntry" where
  "project gu =
     (case gu of (g, usr) \<Rightarrow>
        \<lparr>entry_userId = g_id g,
         entry_username = username usr,
         entry_email = email usr,
         entry_lastMessage =
           \<lparr>lm_content = content (g_lastMessage g),
            lm_createdAt = createdAt (g_lastMessage g),
            lm_read = read (g_lastMessage g)\<rparr>,
         entry_unreadCount = g_unreadCount g\<rparr>)"

definition getChatList :: "world \<Rightarrow> string \<Rightarrow> error + chatEntry list" where
  "getChatList w userId =
     (if \<not> isValid userId then Inl (BadRequestException ''Invalid user ID'')
      else
        let userObjectId = ObjectId userId;
            matched = filter (\<lambda>m. (from_id m = userObjectId \<or> to_id m = userObjectId)
                                  \<and> isDeleted m = False) (messages w);
            grouped = group_stage userObjectId (sortNewestFirst matched);
            ordered = sort_key (\<lambda>g. - createdAt (g_lastMessage g)) grouped
        in Inr (map project (lookup_unwind w ordered)))"

section \<open>ChatMicroservice: the delivery consumer\<close>

text \<open>
  The steps of the \<open>try\<close> block of \<open>handleMessageSent\<close>. Each step either raises, as the
  fault assignment says, or has its effect; a raise ends the block and keeps what
  earlier steps did. The three notification steps only write to the console, and the
  timed waits (\<open>simulateDelay\<close>) have no effect on the state.
  \<open>channel.ack(originalMsg)\<close> records the delivery tag and does not raise.
\<close>

datatype step = MarkDelivered | PushNotification | WebSocketNotification | Analytics

definition andThen ::
  "(world \<Rightarrow> (error + unit) \<times> world) \<Rightarrow> (world \<Rightarrow> (error + unit) \<times> world)
     \<Rightarrow> world \<Rightarrow> (error + unit) \<times> world" where
  "andThen f g w = (case f w of (Inl err, w1) \<Rightarrow> (Inl err, w1) | (Inr u, w1) \<Rightarrow> g w1)"

definition attempt ::
  "(step \<Rightarrow> error option) \<Rightarrow> step \<Rightarrow> (world \<Rightarrow> (error + unit) \<times> world)
     \<Rightarrow> world \<Rightarrow> (error + unit) \<times> world" where
  "attempt faults s f w = (case faults s of Some err \<Rightarrow> (Inl err, w) | None \<Rightarrow> f w)"

definition sendPushNotification :: "payload \<Rightarrow> world \<Rightarrow> (error + unit) \<times> world" where
  "sendPushNotification pl w = (Inr (), w)"

definition notifyReceiverViaWebSocker :: "payload \<Rightarrow> world \<Rightarrow> (error + unit) \<times> world" where
  "notifyReceiverViaWebSocker pl w = (Inr (), w)"

definition logMessageAnalytics :: "payload \<Rightarrow> world \<Rightarrow> (error + unit) \<times> world" where
  "logMessageAnalytics pl w = (Inr (), w)"

definition ack :: "world \<Rightarrow> nat \<Rightarrow> world" where
  "ack w originalMsg = w\<lparr>acked := acked w @ [originalMsg]\<rparr>"

definition pipeline ::
  "(step \<Rightarrow> error option) \<Rightarrow> env \<Rightarrow> payload \<Rightarrow> world \<Rightarrow> (error + unit) \<times> world" where
  "pipeline faults e pl =
     andThen (attempt faults MarkDelivered (\<lambda>w. markAsDelivered e w (p_messageId pl)))
    (andThen (attempt faults PushNotification (sendPushNotification pl))
    (andThen (attempt faults WebSocketNotification (notifyReceiverViaWebSocker pl))
             (attempt faults Analytics (logMessageAnalytics pl))))"

definition handleMessageSent ::
  "(step \<Rightarrow> error option) \<Rightarrow> env \<Rightarrow> world \<Rightarrow> payload \<Rightarrow> nat \<Rightarrow> (error + unit) \<times> world" where
  "handleMessageSent faults e w pl originalMsg =
     (case pipeline faults e pl w of
        (Inr u, w1) \<Rightarrow> (Inr (), ack w1 originalMsg)
      | (Inl err, w1) \<Rightarrow>
          (Inr (), ack (console_error w1 ''Error processing messages:'') originalMsg))"

section \<open>Notions of the specification\<close>

text \<open>
  The filter and the update of \<open>markAsRead\<close>, named: a message is readable by a reader
  under a message id when it has that \<open>_id\<close>, the reader is its recipient and it is not
  deleted; reading it at time \<open>t\<close> sets the four fields of the \<open>$set\<close>.
\<close>

definition readable :: "string \<Rightarrow> string \<Rightarrow> message \<Rightarrow> bool" where
  "readable messageId readerId m =
     (msg_id m = ObjectId messageId \<and> to_id m = ObjectId readerId \<and> isDeleted m = False)"

definition setRead :: "int \<Rightarrow> message \<Rightarrow> message" where
  "setRead t m = m\<lparr>read := True, readAt := Some t, delivered := True, deliveredAt := Some t\<rparr>"

text \<open>
  A non-deleted message exchanged between \<open>u\<close> and \<open>c\<close>: its participants are exactly
  the two, in either direction.
\<close>

definition exchanged :: "objectId \<Rightarrow> objectId \<Rightarrow> message \<Rightarrow> bool" where
  "exchanged u c m = (isDeleted m = False \<and> {from_id m, to_id m} = {u, c})"

text \<open>
  The conversation of two users in the order the store is asked for, newest first, and
  the pagination window of size \<open>limit\<close> at offset \<open>skip\<close>.
\<close>

definition newestFirstBetween :: "world \<Rightarrow> objectId \<Rightarrow> objectId \<Rightarrow> message list" where
  "newestFirstBetween w a b = sortNewestFirst (filter (exchanged a b) (messages w))"

definition pageWindow :: "nat \<Rightarrow> nat \<Rightarrow> 'a list \<Rightarrow> 'a list" where
  "pageWindow limit skip xs = take limit (drop skip xs)"

text \<open>The count query for the unread messages that \<open>c\<close> sent to \<open>u\<close>.\<close>

definition countUnreadFrom :: "world \<Rightarrow> objectId \<Rightarrow> objectId \<Rightarrow> nat" where
  "countUnreadFrom w u c =
     length (filter (\<lambda>m. isDeleted m = False \<and> from_id m = c \<and> to_id m = u \<and> read m = False)
               (messages w))"

text \<open>What \<open>$project\<close> keeps of a last message.\<close>

definition view :: "message \<Rightarrow> lastMessageView" where
  "view m = \<lparr>lm_content = content m, lm_createdAt = createdAt m, lm_read = read m\<rparr>"

text \<open>
  A soft-deleted message is kept by a transition when the document at its place is the
  same afterwards.
\<close>

definition keepsDeleted :: "message \<Rightarrow> message \<Rightarrow> bool" where
  "keepsDeleted before after = (if isDeleted before then after = before else True)"

text \<open>
  A second arrangement that the store may give: newest first, and documents with equal
  creation time in the reverse of collection order.
\<close>

definition tiesLastFirst :: "message list \<Rightarrow> message list" where
  "tiesLastFirst ms = sortNewestFirst (rev ms)"

text \<open>No step of the consumer's pipeline raises.\<close>

definition noFault :: "(step \<Rightarrow> error option) \<Rightarrow> bool" where
  "noFault faults =
     (faults MarkDelivered = None \<and> faults PushNotification = None
      \<and> faults WebSocketNotification = None \<and> faults Analytics = None)"

section \<open>A sample state\<close>

text \<open>
  Three registered users, an id that belongs to no user, and four messages, one of them
  soft-deleted.
\<close>

definition alice :: string where "alice = ''507f1f77bcf86cd799439011''"
definition bob :: string where "bob = ''507f1f77bcf86cd799439012''"
definition carol :: string where "carol = ''507f1f77bcf86cd799439013''"
definition dave :: string where "dave = ''507f1f77bcf86cd799439014''"

definition mid1 :: string where "mid1 = ''65a000000000000000000001''"
definition mid2 :: string where "mid2 = ''65a000000000000000000002''"
definition mid3 :: string where "mid3 = ''65a000000000000000000003''"
definition mid4 :: string where "mid4 = ''65a000000000000000000004''"
definition mid5 :: string where "mid5 = ''65a000000000000000000005''"

definition msg1 :: message where
  "msg1 = \<lparr>msg_id = mid1, from_id = alice, to_id = bob, content = ''hello'',
     delivered = False, read = False, deliveredAt = None, readAt = None,
     messageType = ''text'', attachmentUrl = None, isDeleted = False, deletedAt = None,
     createdAt = 1000\<rparr>"

definition msg2 :: message where
  "msg2 = \<lparr>msg_id = mid2, from_id = bob, to_id = alice, content = ''hi'',
     delivered = True, read = False, deliveredAt = Some 2100, readAt = None,
     messageType = ''text'', attachmentUrl = None, isDeleted = False, deletedAt = None,
     createdAt = 2000\<rparr>"

definition msg3 :: message where
  "msg3 = \<lparr>msg_id = mid3, from_id = alice, to_id = bob, content = ''oops'',
     delivered = False, read = False, deliveredAt = None, readAt = None,
     messageType = ''text'', attachmentUrl = None, isDeleted = True, deletedAt = Some 1600,
     createdAt = 1500\<rparr>"

definition msg4 :: message where
  "msg4 = \<lparr>msg_id = mid4, from_id = carol, to_id = alice, content = ''ping'',
     delivered = True, read = False, deliveredAt = Some 2600, readAt = None,
     messageType = ''text'', attachmentUrl = None, isDeleted = False, deletedAt = None,
     createdAt = 2500\<rparr>"

definition directory :: "objectId \<Rightarrow> user option" where
  "directory = map_of
     [(alice, \<lparr>email = ''alice@example.com'', username = ''alice'', isActive = True\<rparr>),
      (bob, \<lparr>email = ''bob@example.com'', username = ''bob'', isActive = True\<rparr>),
      (carol, \<lparr>email = ''carol@example.com'', username = ''carol'', isActive = True\<rparr>)]"

definition world0 :: world where
  "world0 = \<lparr>users = directory, messages = [msg1, msg2, msg3, msg4], queue = [],
     acked = [], stderr = []\<rparr>"

text \<open>Two calls: in the first the broker client raises, in the second it does not.\<close>

definition env0 :: env where
  "env0 = \<lparr>now = 3000, newObjectId = mid5, emitError = Some (Error ''channel closed'')\<rparr>"

definition env1 :: env where
  "env1 = \<lparr>now = 4000, newObjectId = mid5, emitError = None\<rparr>"

definition dto0 :: sendMessageDto where
  "dto0 = \<lparr>dto_to = bob, dto_content = ''  hey  '', dto_messageType = None,
     dto_attachmentUrl = None\<rparr>"

definition sent0 :: message where
  "sent0 = \<lparr>msg_id = mid5, from_id = alice, to_id = bob, content = ''hey'',
     delivered = False, read = False, deliveredAt = None, readAt = None,
     messageType = ''text'', attachmentUrl = None, isDeleted = False, deletedAt = None,
     createdAt = 3000\<rparr>"

definition selfDto :: "string \<Rightarrow> sendMessageDto" where
  "selfDto u = \<lparr>dto_to = u, dto_content = ''hi'', dto_messageType = None,
     dto_attachmentUrl = None\<rparr>"

definition aliceAuth :: authUser where
  "aliceAuth = \<lparr>au_userId = alice, au_email = ''alice@example.com'', au_username = ''alice''\<rparr>"

text \<open>A state in which the two users wrote to each other in the same millisecond.\<close>

definition tie1 :: message where
  "tie1 = \<lparr>msg_id = mid1, from_id = alice, to_id = bob, content = ''you first'',
     delivered = False, read = False, deliveredAt = None, readAt = None,
     messageType = ''text'', attachmentUrl = None, isDeleted = False, deletedAt = None,
     createdAt = 5000\<rparr>"

definition tie2 :: message where
  "tie2 = \<lparr>msg_id = mid2, from_id = bob, to_id = alice, content = ''no, you'',
     delivered = False, read = False, deliveredAt = None, readAt = None,
     messageType = ''text'', attachmentUrl = None, isDeleted = False, deletedAt = None,
     createdAt = 5000\<rparr>"

definition tieWorld :: world where
  "tieWorld = \<lparr>users = directory, messages = [tie1, tie2], queue = [], acked = [],
     stderr = []\<rparr>"

definition event0 :: payload where
  "event0 = \<lparr>p_messageId = mid1, p_from = alice, p_to = bob, p_content = ''hello'',
     p_messageType = ''text'', p_timestamp = 1000\<rparr>"

definition pushFails :: "step \<Rightarrow> error option" where
  "pushFails s = (if s = PushNotification then Some (Error ''push provider down'') else None)"

section \<open>Facts about the sample state\<close>

lemmas sample_ids = alice_def bob_def carol_def dave_def
  mid1_def mid2_def mid3_def mid4_def mid5_def

lemma sample_valid:
  "isValid alice" "isValid bob" "isValid carol" "isValid dave"
  "isValid mid1" "isValid mid2" "isValid mid3" "isValid mid4" "isValid mid5"
  by (simp_all add: sample_ids isValid_def isHexDigit_def)

lemma sample_invalid: "\<not> isValid ''invalid-id''"
  by (simp add: isValid_def)

lemma sample_oid:
  "ObjectId alice = alice" "ObjectId bob = bob" "ObjectId carol = carol"
  "ObjectId dave = dave"
  "ObjectId mid1 = mid1" "ObjectId mid2 = mid2" "ObjectId mid3 = mid3"
  "ObjectId mid4 = mid4" "ObjectId mid5 = mid5"
  by (simp_all add: sample_ids ObjectId_def hexLower_def)

lemma sample_users:
  "users world0 alice = Some \<lparr>email = ''alice@example.com'', username = ''alice'', isActive = True\<rparr>"
  "users world0 bob = Some \<lparr>email = ''bob@example.com'', username = ''bob'', isActive = True\<rparr>"
  "users world0 carol = Some \<lparr>email = ''carol@example.com'', username = ''carol'', isActive = True\<rparr>"
  "users world0 dave = None"
  by (simp_all add: world0_def directory_def sample_ids)

lemma sample_findById:
  "findById world0 (IdString alice) = users world0 alice"
  "findById world0 (IdString bob) = users world0 bob"
  "findById world0 (IdString dave) = None"
  "findById world0 (IdObject alice) = users world0 alice"
  by (simp_all add: findById_def isValidId_def toObjectId_def sample_valid sample_oid
        sample_users)

section \<open>Sending a message\<close>

text \<open>
  C1. When sender and receiver exist and differ and the write to the message store
  succeeds, a publish that raises does not fail the send: \<open>sendMessage\<close> returns the saved
  message, the message is the last document of the collection and is in its initial
  state, nothing reaches the queue, and the failure is written to the error log.
\<close>

theorem sendMessage_survives_publish_failure:
  assumes "findById w fromUserId = Some sender"
    and "findById w (IdString (dto_to dto)) = Some receiver"
    and "\<not> strictEquals fromUserId (dto_to dto)"
    and "save w (newMessage e fromUserId dto) = Inr (savedMessage, w1)"
    and "emitError e = Some err"
  shows "\<exists>w2. sendMessage e w fromUserId dto = (Inr (populateFromTo w2 savedMessage), w2)
     \<and> messages w2 = messages w @ [savedMessage]
     \<and> delivered savedMessage = False \<and> read savedMessage = False
     \<and> isDeleted savedMessage = False
     \<and> queue w2 = queue w
     \<and> stderr w2 = stderr w @ [''Failed to publish message to RabbitMQ:'']"
proof -
  have valid: "isValidId fromUserId" "isValid (dto_to dto)"
    using assms(1,2) by (auto simp: findById_def isValidId_def split: if_splits)
  have saved: "messages w1 = messages w @ [savedMessage]" "queue w1 = queue w"
      "stderr w1 = stderr w" "delivered savedMessage = False" "read savedMessage = False"
      "isDeleted savedMessage = False"
    using assms(4)
    by (auto simp: save_def preSave_def newMessage_def Let_def
          split: list.splits sum.splits if_splits)
  show ?thesis
    using assms valid saved
    by (simp add: sendMessage_def publishMessageToQueue_def console_error_def Let_def)
qed

lemma sample_save:
  "save world0 (newMessage env0 (IdString alice) dto0)
     = Inr (sent0, world0\<lparr>messages := messages world0 @ [sent0]\<rparr>)"
  by (simp add: save_def validate_def preSave_def newMessage_def trim_def isWhiteSpace_def
        dto0_def env0_def sent0_def world0_def msg1_def msg2_def msg3_def msg4_def
        toObjectId_def sample_oid Let_def)
     (simp add: sample_ids)

theorem sendMessage_survives_publish_failure_witness:
  "findById world0 (IdString alice) \<noteq> None
   \<and> findById world0 (IdString (dto_to dto0)) \<noteq> None
   \<and> alice \<noteq> dto_to dto0
   \<and> save world0 (newMessage env0 (IdString alice) dto0)
       = Inr (sent0, world0\<lparr>messages := messages world0 @ [sent0]\<rparr>)
   \<and> emitError env0 = Some (Error ''channel closed'')
   \<and> (\<exists>w2. sendMessage env0 world0 (IdString alice) dto0
                = (Inr (populateFromTo w2 sent0), w2)
          \<and> messages w2 = [msg1, msg2, msg3, msg4, sent0]
          \<and> queue w2 = []
          \<and> stderr w2 = [''Failed to publish message to RabbitMQ:''])"
proof -
  have to: "dto_to dto0 = bob" by (simp add: dto0_def)
  have f1: "findById world0 (IdString alice)
      = Some \<lparr>email = ''alice@example.com'', username = ''alice'', isActive = True\<rparr>"
    by (simp add: sample_findById sample_users)
  have f2: "findById world0 (IdString (dto_to dto0))
      = Some \<lparr>email = ''bob@example.com'', username = ''bob'', isActive = True\<rparr>"
    by (simp add: to sample_findById sample_users)
  have ne: "alice \<noteq> dto_to dto0" by (simp add: to sample_ids)
  then have ns: "\<not> strictEquals (IdString alice) (dto_to dto0)"
    by (simp add: strictEquals_def)
  have em: "emitError env0 = Some (Error ''channel closed'')" by (simp add: env0_def)
  from sendMessage_survives_publish_failure [OF f1 f2 ns sample_save em]
  obtain w2 where
    "sendMessage env0 world0 (IdString alice) dto0 = (Inr (populateFromTo w2 sent0), w2)"
    "messages w2 = messages world0 @ [sent0]" "queue w2 = queue world0"
    "stderr w2 = stderr world0 @ [''Failed to publish message to RabbitMQ:'']"
    by blast
  then have "\<exists>w2. sendMessage env0 world0 (IdString alice) dto0
                = (Inr (populateFromTo w2 sent0), w2)
          \<and> messages w2 = [msg1, msg2, msg3, msg4, sent0]
          \<and> queue w2 = []
          \<and> stderr w2 = [''Failed to publish message to RabbitMQ:'']"
    by (auto simp: world0_def)
  then show ?thesis using f1 f2 ne em sample_save by simp
qed

text \<open>
  The guard of \<open>sendMessage\<close> against a send to oneself compares the sender's id with
  the receiver's by \<open>===\<close>. With the sender's id as a string, as the service's own test
  passes it, the guard refuses the send with the bad-request error.
\<close>

lemma sendMessage_self_string:
  assumes "dto_to dto = u"
  shows "sendMessage e w (IdString u) dto =
    (Inl (if findById w (IdString u) = None then NotFoundException ''Sender not found''
          else BadRequestException ''Cannot send message to yourself''), w)"
  using assms by (auto simp: sendMessage_def strictEquals_def split: option.splits)

text \<open>
  With the sender's id as an ObjectId the guard never holds. A send of a registered
  user to the string of her own id then goes on to \<open>save\<close>, where either a validator or
  the pre-save hook stops it: the error is not a bad request, and nothing is persisted.
\<close>

lemma sendMessage_self_object:
  assumes "users w i = Some usr" and "isValid (dto_to dto)" and "ObjectId (dto_to dto) = i"
  shows "sendMessage e w (IdObject i) dto =
    (Inl (case validate (newMessage e (IdObject i) dto) of
            [] \<Rightarrow> Error ''Cannot send message to yourself''
          | p # ps \<Rightarrow> ValidationError (p # ps)), w)"
proof -
  have found: "findById w (IdObject i) = Some usr" "findById w (IdString (dto_to dto)) = Some usr"
    using assms by (simp_all add: findById_def isValidId_def toObjectId_def)
  have same: "from_id (newMessage e (IdObject i) dto) = to_id (newMessage e (IdObject i) dto)"
    using assms(3) by (simp add: newMessage_def toObjectId_def)
  have "save w (newMessage e (IdObject i) dto) =
      Inl (case validate (newMessage e (IdObject i) dto) of
            [] \<Rightarrow> Error ''Cannot send message to yourself''
          | p # ps \<Rightarrow> ValidationError (p # ps))"
    using same by (simp add: save_def preSave_def split: list.splits)
  then show ?thesis
    using found assms(2)
    by (simp add: sendMessage_def strictEquals_def isValidId_def)
qed

text \<open>
  C7. A registered user who sends a message to herself is to be refused with the
  bad-request error "Cannot send message to yourself". On the way from the request
  this is not what happens: \<open>JwtStrategy.validate\<close> makes the sender's id an ObjectId,
  the guard of \<open>sendMessage\<close> compares it with a string and lets the send pass, and the
  pre-save hook stops it with a plain \<open>Error\<close>. The same send with the id as a string
  gets the bad-request error. No message is persisted either way.
\<close>

theorem self_send_from_request:
  "jwtValidate world0 alice = Inr aliceAuth
   \<and> dto_to (selfDto alice) = alice
   \<and> ChatController_sendMessage env1 world0 aliceAuth (selfDto alice)
       = (Inl (Error ''Cannot send message to yourself''), world0)
   \<and> sendMessage env1 world0 (IdString alice) (selfDto alice)
       = (Inl (BadRequestException ''Cannot send message to yourself''), world0)"
proof -
  have to: "dto_to (selfDto alice) = alice" by (simp add: selfDto_def)
  have auth: "jwtValidate world0 alice = Inr aliceAuth"
    by (simp add: jwtValidate_def sample_findById sample_users sample_oid aliceAuth_def)
  have ok: "validate (newMessage env1 (IdObject alice) (selfDto alice)) = []"
    by (simp add: validate_def newMessage_def selfDto_def trim_def isWhiteSpace_def)
  have "sendMessage env1 world0 (IdObject alice) (selfDto alice)
       = (Inl (Error ''Cannot send message to yourself''), world0)"
    using sendMessage_self_object [OF sample_users(1), of "selfDto alice" env1]
    by (simp add: to sample_valid sample_oid ok)
  then have http: "ChatController_sendMessage env1 world0 aliceAuth (selfDto alice)
       = (Inl (Error ''Cannot send message to yourself''), world0)"
    by (simp add: ChatController_sendMessage_def aliceAuth_def)
  have str: "sendMessage env1 world0 (IdString alice) (selfDto alice)
       = (Inl (BadRequestException ''Cannot send message to yourself''), world0)"
    using sendMessage_self_string [OF to, of env1 world0]
    by (simp add: sample_findById sample_users)
  from to auth http str show ?thesis by simp
qed

theorem self_send_from_request_witness:
  "fst (ChatController_sendMessage env1 world0 aliceAuth (selfDto alice))
     \<noteq> Inl (BadRequestException ''Cannot send message to yourself'')
   \<and> snd (ChatController_sendMessage env1 world0 aliceAuth (selfDto alice)) = world0"
  using self_send_from_request by simp

section \<open>Conditional updates\<close>

lemma findOneAndUpdate_none:
  "\<forall>x\<in>set ms. \<not> P x \<Longrightarrow> findOneAndUpdate P f ms = (None, ms)"
  by (induction ms) auto

lemma findOneAndUpdate_first:
  "\<forall>x\<in>set pre. \<not> P x \<Longrightarrow> P m \<Longrightarrow>
   findOneAndUpdate P f (pre @ m # post) = (Some (m, f m), pre @ f m # post)"
  by (induction pre) auto

lemma markAsRead_shape:
  "markAsRead e w messageId userId =
     (if \<not> isValid messageId \<or> \<not> isValid userId
      then (Inl (BadRequestException ''Invalid IDs''), w)
      else (case findOneAndUpdate (readable messageId userId) (setRead (now e)) (messages w) of
           (None, ms) \<Rightarrow> (Inl (NotFoundException ''Message not found or unauthorized''), w)
         | (Some (before, after), ms) \<Rightarrow> (Inr (populateFrom w after), w\<lparr>messages := ms\<rparr>)))"
  unfolding markAsRead_def readable_def [abs_def] setRead_def [abs_def] by (rule refl)

text \<open>
  C3 (as amended). For ids that are valid ObjectId strings, \<open>markAsRead\<close> is one
  conditional update scoped to the message id, the reader as recipient and
  \<open>isDeleted = false\<close>: the first matching document gets \<open>read\<close>, \<open>readAt\<close>, \<open>delivered\<close> and
  \<open>deliveredAt\<close> set and every other document stays as it is; when no document matches,
  whatever the reason, the call fails with the one not-found error and changes nothing.
  An id that is not a valid ObjectId string is refused before the store is asked, with
  the bad-request error "Invalid IDs", and nothing changes either.
\<close>

theorem markAsRead_conditional_update:
  "(\<not> isValid messageId \<or> \<not> isValid readerId \<longrightarrow>
      markAsRead e w messageId readerId = (Inl (BadRequestException ''Invalid IDs''), w))
 \<and> (isValid messageId \<and> isValid readerId
       \<and> (\<forall>m\<in>set (messages w). \<not> readable messageId readerId m) \<longrightarrow>
      markAsRead e w messageId readerId
        = (Inl (NotFoundException ''Message not found or unauthorized''), w))
 \<and> (isValid messageId \<and> isValid readerId \<and> messages w = pre @ m # post
       \<and> readable messageId readerId m \<and> (\<forall>x\<in>set pre. \<not> readable messageId readerId x) \<longrightarrow>
      markAsRead e w messageId readerId
        = (Inr (populateFrom w (setRead (now e) m)),
           w\<lparr>messages := pre @ setRead (now e) m # post\<rparr>))"
  by (auto simp: markAsRead_shape findOneAndUpdate_none findOneAndUpdate_first)

lemma sample_readable:
  "readable mid1 bob msg1"
  "\<not> readable mid1 alice msg1" "\<not> readable mid1 alice msg2"
  "\<not> readable mid1 alice msg3" "\<not> readable mid1 alice msg4"
  "\<not> readable mid3 bob msg1" "\<not> readable mid3 bob msg2"
  "\<not> readable mid3 bob msg3" "\<not> readable mid3 bob msg4"
  "\<not> readable mid5 bob msg1" "\<not> readable mid5 bob msg2"
  "\<not> readable mid5 bob msg3" "\<not> readable mid5 bob msg4"
  by (simp_all add: readable_def sample_oid msg1_def msg2_def msg3_def msg4_def)
     (simp_all add: sample_ids)

theorem markAsRead_conditional_update_witness:
  "markAsRead env0 world0 mid1 bob
     = (Inr (populateFrom world0 (setRead 3000 msg1)),
        world0\<lparr>messages := [setRead 3000 msg1, msg2, msg3, msg4]\<rparr>)
   \<and> markAsRead env0 world0 mid1 alice
     = (Inl (NotFoundException ''Message not found or unauthorized''), world0)
   \<and> markAsRead env0 world0 mid3 bob
     = (Inl (NotFoundException ''Message not found or unauthorized''), world0)
   \<and> markAsRead env0 world0 mid5 bob
     = (Inl (NotFoundException ''Message not found or unauthorized''), world0)
   \<and> markAsRead env0 world0 ''invalid-id'' bob
     = (Inl (BadRequestException ''Invalid IDs''), world0)"
proof -
  have ms: "messages world0 = [] @ msg1 # [msg2, msg3, msg4]" by (simp add: world0_def)
  have all: "\<And>P. (\<forall>m\<in>set (messages world0). P m) = (P msg1 \<and> P msg2 \<and> P msg3 \<and> P msg4)"
    by (simp add: world0_def)
  have t: "now env0 = 3000" by (simp add: env0_def)
  have a: "markAsRead env0 world0 mid1 bob
     = (Inr (populateFrom world0 (setRead 3000 msg1)),
        world0\<lparr>messages := [setRead 3000 msg1, msg2, msg3, msg4]\<rparr>)"
    using markAsRead_conditional_update
        [where messageId = mid1 and readerId = bob and e = env0 and w = world0
           and pre = "[]" and m = msg1 and post = "[msg2, msg3, msg4]"]
      ms sample_valid sample_readable
    by (simp add: t)
  have b: "markAsRead env0 world0 mid1 alice
     = (Inl (NotFoundException ''Message not found or unauthorized''), world0)"
    using markAsRead_conditional_update [of mid1 alice env0 world0] sample_valid sample_readable
    by (simp add: all)
  have c: "markAsRead env0 world0 mid3 bob
     = (Inl (NotFoundException ''Message not found or unauthorized''), world0)"
    using markAsRead_conditional_update [of mid3 bob env0 world0] sample_valid sample_readable
    by (simp add: all)
  have d: "markAsRead env0 world0 mid5 bob
     = (Inl (NotFoundException ''Message not found or unauthorized''), world0)"
    using markAsRead_conditional_update [of mid5 bob env0 world0] sample_valid sample_readable
    by (simp add: all)
  have e: "markAsRead env0 world0 ''invalid-id'' bob
     = (Inl (BadRequestException ''Invalid IDs''), world0)"
    using markAsRead_conditional_update [of "''invalid-id''" bob env0 world0] sample_invalid
    by simp
  from a b c d e show ?thesis by simp
qed

text \<open>
  The sentence as the specification has it, for every message id: a message id that is
  not a valid ObjectId string names no message either, yet the error is not the
  not-found error that a well-formed unknown id gets.
\<close>

theorem markAsRead_invalid_id_counterexample:
  "list_all (\<lambda>m. \<not> readable ''invalid-id'' bob m) (messages world0)
   \<and> fst (markAsRead env0 world0 ''invalid-id'' bob)
        \<noteq> Inl (NotFoundException ''Message not found or unauthorized'')
   \<and> fst (markAsRead env0 world0 mid5 bob)
        = Inl (NotFoundException ''Message not found or unauthorized'')"
proof -
  have "list_all (\<lambda>m. \<not> readable ''invalid-id'' bob m) (messages world0)"
    by (simp add: world0_def readable_def msg1_def msg2_def msg3_def msg4_def ObjectId_def
          hexLower_def sample_ids)
  moreover have "fst (markAsRead env0 world0 ''invalid-id'' bob)
        \<noteq> Inl (NotFoundException ''Message not found or unauthorized'')"
    by (simp add: markAsRead_def sample_invalid)
  moreover have "fst (markAsRead env0 world0 mid5 bob)
        = Inl (NotFoundException ''Message not found or unauthorized'')"
    by (simp add: markAsRead_shape sample_valid findOneAndUpdate_none world0_def sample_readable)
  ultimately show ?thesis by simp
qed

text \<open>
  C6. For a message that the reader can read, two calls of \<open>markAsRead\<close> in succession
  both succeed and both return the message with \<open>read = true\<close>. The first call updates
  the first readable document; the second call updates the same document, and all it
  changes in the state is \<open>readAt\<close> and \<open>deliveredAt\<close> of that document, which take the
  time of the second call.
\<close>

theorem markAsRead_idempotent:
  assumes "isValid messageId" and "isValid readerId"
    and "m \<in> set (messages w)" and "readable messageId readerId m"
  shows "\<exists>pre m1 post d1 w1 d2 w2.
     messages w = pre @ m1 # post \<and> readable messageId readerId m1
     \<and> markAsRead e1 w messageId readerId = (Inr d1, w1)
     \<and> markAsRead e2 w1 messageId readerId = (Inr d2, w2)
     \<and> doc d1 = setRead (now e1) m1 \<and> read (doc d1) = True
     \<and> messages w1 = pre @ doc d1 # post
     \<and> doc d2 = (doc d1)\<lparr>readAt := Some (now e2), deliveredAt := Some (now e2)\<rparr>
     \<and> read (doc d2) = True
     \<and> w2 = w1\<lparr>messages := pre @ doc d2 # post\<rparr>"
proof -
  from assms(3,4) have "\<exists>x\<in>set (messages w). readable messageId readerId x" by blast
  then obtain pre m1 post where split: "messages w = pre @ m1 # post"
      "readable messageId readerId m1" "\<forall>x\<in>set pre. \<not> readable messageId readerId x"
    using split_list_first_prop [of "messages w" "readable messageId readerId"] by blast
  let ?m1 = "setRead (now e1) m1"
  let ?w1 = "w\<lparr>messages := pre @ ?m1 # post\<rparr>"
  let ?m2 = "setRead (now e2) ?m1"
  let ?w2 = "?w1\<lparr>messages := pre @ ?m2 # post\<rparr>"
  have first: "markAsRead e1 w messageId readerId = (Inr (populateFrom w ?m1), ?w1)"
    using assms(1,2) split by (simp add: markAsRead_shape findOneAndUpdate_first)
  have still: "readable messageId readerId ?m1"
    using split(2) by (simp add: readable_def setRead_def)
  have second: "markAsRead e2 ?w1 messageId readerId = (Inr (populateFrom ?w1 ?m2), ?w2)"
    using assms(1,2) split(3) still by (simp add: markAsRead_shape findOneAndUpdate_first)
  have only: "?m2 = ?m1\<lparr>readAt := Some (now e2), deliveredAt := Some (now e2)\<rparr>"
    by (simp add: setRead_def)
  show ?thesis
    apply (rule exI [of _ pre], rule exI [of _ m1], rule exI [of _ post])
    apply (rule exI [of _ "populateFrom w ?m1"], rule exI [of _ ?w1])
    apply (rule exI [of _ "populateFrom ?w1 ?m2"], rule exI [of _ ?w2])
    using split first second only by (simp add: populateFrom_def setRead_def)
qed

theorem markAsRead_idempotent_witness:
  "isValid mid1 \<and> isValid bob \<and> msg1 \<in> set (messages world0) \<and> readable mid1 bob msg1
   \<and> (\<exists>d1 w1 d2 w2.
         markAsRead env0 world0 mid1 bob = (Inr d1, w1)
       \<and> markAsRead env1 w1 mid1 bob = (Inr d2, w2)
       \<and> read (doc d1) = True \<and> read (doc d2) = True
       \<and> readAt (doc d2) = Some 4000
       \<and> doc d2 = (doc d1)\<lparr>readAt := Some 4000, deliveredAt := Some 4000\<rparr>)"
proof -
  have mem: "msg1 \<in> set (messages world0)" by (simp add: world0_def)
  have t: "now env1 = 4000" by (simp add: env1_def)
  from markAsRead_idempotent [OF sample_valid(5) sample_valid(2) mem sample_readable(1),
      of env0 env1]
  have "\<exists>d1 w1 d2 w2.
         markAsRead env0 world0 mid1 bob = (Inr d1, w1)
       \<and> markAsRead env1 w1 mid1 bob = (Inr d2, w2)
       \<and> read (doc d1) = True \<and> read (doc d2) = True
       \<and> readAt (doc d2) = Some 4000
       \<and> doc d2 = (doc d1)\<lparr>readAt := Some 4000, deliveredAt := Some 4000\<rparr>"
    unfolding t by fastforce
  then show ?thesis using sample_valid(5) sample_valid(2) mem sample_readable(1) by simp
qed

section \<open>Soft-deleted messages\<close>

text \<open>
  Three of the five transitions leave every soft-deleted message as it is: \<open>sendMessage\<close>
  only appends, and the filters of \<open>markAsRead\<close> and \<open>markConversationAsRead\<close> ask for
  \<open>isDeleted = false\<close>.
\<close>

lemma keepsDeleted_refl: "list_all2 keepsDeleted ms ms"
  by (simp add: list_all2_refl keepsDeleted_def)

lemma findOneAndUpdate_keepsDeleted:
  assumes "\<And>m. P m \<Longrightarrow> isDeleted m = False"
  shows "list_all2 keepsDeleted ms (snd (findOneAndUpdate P f ms))"
  using assms
  by (induction ms) (auto simp: keepsDeleted_def keepsDeleted_refl split: prod.splits)

lemma updateMany_keepsDeleted:
  assumes "\<And>m. P m \<Longrightarrow> isDeleted m = False"
  shows "list_all2 keepsDeleted ms (snd (updateMany P f ms))"
  using assms
  by (induction ms) (auto simp: updateMany_def keepsDeleted_def)

lemma markAsRead_keepsDeleted:
  "list_all2 keepsDeleted (messages w) (messages (snd (markAsRead e w messageId userId)))"
proof -
  have "list_all2 keepsDeleted (messages w)
          (snd (findOneAndUpdate (readable messageId userId) (setRead (now e)) (messages w)))"
    by (rule findOneAndUpdate_keepsDeleted) (simp add: readable_def)
  then show ?thesis
    by (auto simp: markAsRead_shape keepsDeleted_refl split: prod.splits option.splits)
qed

lemma markConversationAsRead_keepsDeleted:
  "list_all2 keepsDeleted (messages w)
     (messages (snd (markConversationAsRead e w userId fromUserId)))"
proof -
  have "list_all2 keepsDeleted (messages w)
          (snd (updateMany
                (\<lambda>m. from_id m = ObjectId fromUserId \<and> to_id m = ObjectId userId
                      \<and> read m = False \<and> isDeleted m = False)
                (\<lambda>m. m\<lparr>read := True, readAt := Some (now e),
                         delivered := True, deliveredAt := Some (now e)\<rparr>)
                (messages w)))"
    by (rule updateMany_keepsDeleted) simp
  then show ?thesis
    by (auto simp: markConversationAsRead_def keepsDeleted_refl split: prod.splits)
qed

lemma sendMessage_appends:
  "\<exists>new. messages (snd (sendMessage e w fromUserId dto)) = messages w @ new"
  by (auto simp: sendMessage_def save_def publishMessageToQueue_def console_error_def Let_def
        split: option.splits sum.splits list.splits prod.splits)

text \<open>
  C2. The other two transitions do not ask for \<open>isDeleted = false\<close>. In the sample
  state the third message is soft-deleted; \<open>markAsDelivered\<close> on its id sets \<open>delivered\<close>
  and \<open>deliveredAt\<close> of the deleted message, and \<open>deleteMessage\<close> by its recipient moves
  its \<open>deletedAt\<close>.
\<close>

theorem deleted_message_mutated:
  "isDeleted msg3 = True
   \<and> messages world0 = [msg1, msg2, msg3, msg4]
   \<and> messages (snd (markAsDelivered env0 world0 mid3))
       = [msg1, msg2, msg3\<lparr>delivered := True, deliveredAt := Some 3000\<rparr>, msg4]
   \<and> messages (snd (deleteMessage env0 world0 mid3 bob))
       = [msg1, msg2, msg3\<lparr>deletedAt := Some 3000\<rparr>, msg4]
   \<and> msg3\<lparr>delivered := True, deliveredAt := Some 3000\<rparr> \<noteq> msg3
   \<and> msg3\<lparr>deletedAt := Some 3000\<rparr> \<noteq> msg3"
proof -
  have ids: "msg_id msg1 \<noteq> mid3" "msg_id msg2 \<noteq> mid3" "msg_id msg3 = mid3"
    by (simp_all add: msg1_def msg2_def msg3_def sample_ids)
  have who: "to_id msg3 = bob" by (simp add: msg3_def)
  have t: "now env0 = 3000" by (simp add: env0_def)
  have del: "isDeleted msg3 = True" "msg3\<lparr>delivered := True, deliveredAt := Some 3000\<rparr> \<noteq> msg3"
      "msg3\<lparr>deletedAt := Some 3000\<rparr> \<noteq> msg3" "msg3\<lparr>isDeleted := True\<rparr> = msg3"
    by (simp_all add: msg3_def)
  have a: "messages (snd (markAsDelivered env0 world0 mid3))
       = [msg1, msg2, msg3\<lparr>delivered := True, deliveredAt := Some 3000\<rparr>, msg4]"
    by (simp add: markAsDelivered_def sample_valid sample_oid world0_def ids t)
  have b: "messages (snd (deleteMessage env0 world0 mid3 bob))
       = [msg1, msg2, msg3\<lparr>deletedAt := Some 3000\<rparr>, msg4]"
    using del(4)
    by (simp add: deleteMessage_def sample_valid sample_oid world0_def ids who t)
  show ?thesis using a b del by (simp add: world0_def)
qed

theorem deleted_message_mutated_witness:
  "\<not> list_all2 keepsDeleted (messages world0)
        (messages (snd (markAsDelivered env0 world0 mid3)))
   \<and> \<not> list_all2 keepsDeleted (messages world0)
        (messages (snd (deleteMessage env0 world0 mid3 bob)))"
  using deleted_message_mutated by (simp add: keepsDeleted_def)

section \<open>Conversations\<close>

lemma sortNewestFirst_descending:
  "sorted_wrt (\<lambda>a b. createdAt b \<le> createdAt a) (sortNewestFirst ms)"
proof -
  have "sorted (map (\<lambda>m. - createdAt m) (sortNewestFirst ms))"
    by (simp add: sortNewestFirst_def)
  then show ?thesis by (simp add: sorted_wrt_map)
qed

lemma conversation_filter:
  "(\<lambda>m. (from_id m = a \<and> to_id m = b \<or> from_id m = b \<and> to_id m = a) \<and> isDeleted m = False)
     = exchanged a b"
  by (rule ext) (auto simp: exchanged_def doubleton_eq_iff)

lemma getConversation_shape:
  "getConversation w userId1 userId2 limit skip =
     (if \<not> isValid userId1 \<or> \<not> isValid userId2
      then Inl (BadRequestException ''Invalid user IDs'')
      else Inr (map (populateFromTo w)
             (rev (limit_docs limit (drop skip
                (newestFirstBetween w (ObjectId userId1) (ObjectId userId2)))))))"
  unfolding getConversation_def conversation_filter newestFirstBetween_def
  by (simp add: skip_docs_def rev_map Let_def)

text \<open>
  C5 (as amended). For valid user ids, \<open>getConversation\<close> selects the non-deleted
  messages whose participants are exactly the two users, in either direction, and
  orders them newest first by creation time. For a limit of at least one it takes the
  pagination window of size \<open>limit\<close> at offset \<open>skip\<close> of that ordering; for limit
  zero it takes everything from offset \<open>skip\<close> on. It returns what it took reversed, so
  the returned list is ordered oldest first.
\<close>

theorem getConversation_window:
  assumes "isValid userA" and "isValid userB"
  shows "\<exists>found.
      getConversation w userA userB limit skip = Inr found
    \<and> found = map (populateFromTo w)
        (rev (if limit = 0
              then drop skip (newestFirstBetween w (ObjectId userA) (ObjectId userB))
              else pageWindow limit skip
                     (newestFirstBetween w (ObjectId userA) (ObjectId userB))))
    \<and> set (newestFirstBetween w (ObjectId userA) (ObjectId userB))
        = {m. m \<in> set (messages w) \<and> exchanged (ObjectId userA) (ObjectId userB) m}
    \<and> sorted_wrt (\<lambda>a b. createdAt b \<le> createdAt a)
        (newestFirstBetween w (ObjectId userA) (ObjectId userB))
    \<and> sorted_wrt (\<lambda>x y. createdAt (doc x) \<le> createdAt (doc y)) found"
proof -
  let ?nf = "newestFirstBetween w (ObjectId userA) (ObjectId userB)"
  let ?window = "if limit = 0 then drop skip ?nf else pageWindow limit skip ?nf"
  have members: "set ?nf
        = {m. m \<in> set (messages w) \<and> exchanged (ObjectId userA) (ObjectId userB) m}"
    by (auto simp: newestFirstBetween_def sortNewestFirst_def)
  have desc: "sorted_wrt (\<lambda>a b. createdAt b \<le> createdAt a) ?nf"
    unfolding newestFirstBetween_def by (rule sortNewestFirst_descending)
  then have "sorted_wrt (\<lambda>a b. createdAt b \<le> createdAt a) ?window"
    by (simp add: pageWindow_def)
  then have "sorted_wrt (\<lambda>a b. createdAt a \<le> createdAt b) (rev ?window)"
    by (simp only: sorted_wrt_rev)
  then have asc: "sorted_wrt (\<lambda>x y. createdAt (doc x) \<le> createdAt (doc y))
        (map (populateFromTo w) (rev ?window))"
    by (simp add: sorted_wrt_map populateFromTo_def)
  have res: "getConversation w userA userB limit skip
        = Inr (map (populateFromTo w) (rev ?window))"
    using assms by (simp add: getConversation_shape limit_docs_def pageWindow_def)
  show ?thesis using res members desc asc by blast
qed

lemma sample_exchanged:
  "exchanged alice bob msg1" "exchanged alice bob msg2"
  "\<not> exchanged alice bob msg3" "\<not> exchanged alice bob msg4"
  "exchanged bob alice msg1" "exchanged bob alice msg2"
  "\<not> exchanged bob alice msg3" "\<not> exchanged bob alice msg4"
  by (simp_all add: exchanged_def msg1_def msg2_def msg3_def msg4_def doubleton_eq_iff)
     (simp_all add: sample_ids)

lemma sample_created: "createdAt msg1 = 1000" "createdAt msg2 = 2000"
  by (simp_all add: msg1_def msg2_def)

lemma sample_conversation:
  "newestFirstBetween world0 alice bob = [msg2, msg1]"
  "newestFirstBetween world0 bob alice = [msg2, msg1]"
  by (simp_all add: newestFirstBetween_def world0_def sample_exchanged sortNewestFirst_def
        sample_created)

theorem getConversation_window_witness:
  "isValid alice \<and> isValid bob
   \<and> getConversation world0 alice bob 1 0 = Inr [populateFromTo world0 msg2]
   \<and> getConversation world0 alice bob 1 1 = Inr [populateFromTo world0 msg1]
   \<and> getConversation world0 alice bob 5 0
        = Inr [populateFromTo world0 msg1, populateFromTo world0 msg2]"
proof -
  have a: "getConversation world0 alice bob 1 0 = Inr [populateFromTo world0 msg2]"
    using getConversation_window [OF sample_valid(1) sample_valid(2), of world0 1 0]
    by (auto simp: sample_oid sample_conversation pageWindow_def)
  have b: "getConversation world0 alice bob 1 1 = Inr [populateFromTo world0 msg1]"
    using getConversation_window [OF sample_valid(1) sample_valid(2), of world0 1 1]
    by (auto simp: sample_oid sample_conversation pageWindow_def)
  have c: "getConversation world0 alice bob 5 0
        = Inr [populateFromTo world0 msg1, populateFromTo world0 msg2]"
    using getConversation_window [OF sample_valid(1) sample_valid(2), of world0 5 0]
    by (auto simp: sample_oid sample_conversation pageWindow_def)
  from a b c sample_valid(1) sample_valid(2) show ?thesis by simp
qed

text \<open>
  The sentence as the specification has it, for every limit, fails at limit zero: the
  pagination window of size zero is empty, and the call returns the whole conversation.
\<close>

theorem getConversation_limit_zero_counterexample:
  "getConversation world0 alice bob 0 0
     = Inr [populateFromTo world0 msg1, populateFromTo world0 msg2]
   \<and> getConversation world0 alice bob 0 0
     \<noteq> Inr (map (populateFromTo world0)
            (rev (pageWindow 0 0 (newestFirstBetween world0 (ObjectId alice) (ObjectId bob)))))"
  by (simp add: getConversation_shape sample_valid sample_oid sample_conversation limit_docs_def
        pageWindow_def)

lemma getConversationUnder_shape:
  "getConversationUnder arrange w userId1 userId2 limit skip =
     (if \<not> isValid userId1 \<or> \<not> isValid userId2
      then Inl (BadRequestException ''Invalid user IDs'')
      else Inr (map (populateFromTo w)
             (rev (limit_docs limit (drop skip (arrange
                (filter (exchanged (ObjectId userId1) (ObjectId userId2)) (messages w))))))))"
  unfolding getConversationUnder_def conversation_filter
  by (simp add: skip_docs_def rev_map Let_def)

lemma getConversation_instance:
  "getConversation w userId1 userId2 limit skip
     = getConversationUnder sortNewestFirst w userId1 userId2 limit skip"
  by (simp add: getConversation_def getConversationUnder_def)

lemma exchanged_commute: "exchanged a b = exchanged b a"
  by (rule ext) (auto simp: exchanged_def)

text \<open>
  Under one and the same arrangement the two calls agree, whatever the creation times.
\<close>

lemma getConversationUnder_swap:
  "getConversationUnder arrange w userA userB limit skip
     = getConversationUnder arrange w userB userA limit skip"
  using exchanged_commute [of "ObjectId userA" "ObjectId userB"]
  by (auto simp: getConversationUnder_shape)

lemma sortNewestFirst_admissible: "newestFirstOf ms (sortNewestFirst ms)"
  by (simp add: newestFirstOf_def sortNewestFirst_descending) (simp add: sortNewestFirst_def)

lemma tiesLastFirst_admissible: "newestFirstOf ms (tiesLastFirst ms)"
  by (simp add: newestFirstOf_def tiesLastFirst_def sortNewestFirst_descending)
     (simp add: sortNewestFirst_def)

text \<open>
  When no two of the documents have the same creation time, there is one newest-first
  arrangement of them.
\<close>

lemma newestFirstOf_unique:
  assumes "newestFirstOf ms xs" and "newestFirstOf ms ys" and "distinct (map createdAt ms)"
  shows "xs = ys"
proof -
  let ?key = "\<lambda>m::message. - createdAt m"
  have mx: "mset xs = mset ms" and my: "mset ys = mset ms"
    using assms(1,2) by (simp_all add: newestFirstOf_def)
  have sx: "sorted (map ?key xs)" and sy: "sorted (map ?key ys)"
    using assms(1,2) by (simp_all add: newestFirstOf_def sorted_wrt_map)
  have "distinct (map createdAt xs)" "distinct (map createdAt ys)"
    using assms(3) mx my
    by (metis mset_eq_imp_distinct_iff mset_map)+
  then have inj: "inj_on createdAt (set xs)" "distinct xs" "inj_on createdAt (set ys)" "distinct ys"
    by (simp_all add: distinct_map)
  have sets: "set xs = set ys" using mx my by (metis set_mset_mset)
  have injk: "inj_on ?key (set xs \<union> set ys)"
    using inj(1) sets by (auto simp: inj_on_def)
  have dx: "distinct (map ?key xs)" and dy: "distinct (map ?key ys)"
    using inj injk sets by (auto simp: distinct_map inj_on_def)
  have "set (map ?key xs) = set (map ?key ys)" using sets by simp
  with sx dx sy dy have "map ?key xs = map ?key ys"
    by (rule sorted_distinct_set_unique)
  then show ?thesis using injk by (simp add: inj_on_map_eq_map)
qed

text \<open>
  C9 (as amended). For valid user ids whose non-deleted mutual messages have pairwise
  different creation times, \<open>getConversation\<close> returns the same list in the same order
  whichever of the two users is named first, for every limit and skip and whatever
  newest-first arrangement the store gives each of the two queries.
\<close>

theorem getConversation_symmetric_distinct_times:
  assumes "isValid userA" and "isValid userB"
    and "newestFirstOf (filter (exchanged (ObjectId userA) (ObjectId userB)) (messages w))
           (arrange1 (filter (exchanged (ObjectId userA) (ObjectId userB)) (messages w)))"
    and "newestFirstOf (filter (exchanged (ObjectId userA) (ObjectId userB)) (messages w))
           (arrange2 (filter (exchanged (ObjectId userA) (ObjectId userB)) (messages w)))"
    and "distinct (map createdAt
           (filter (exchanged (ObjectId userA) (ObjectId userB)) (messages w)))"
  shows "\<exists>found. getConversationUnder arrange1 w userA userB limit skip = Inr found
              \<and> getConversationUnder arrange2 w userB userA limit skip = Inr found"
proof -
  let ?sel = "filter (exchanged (ObjectId userA) (ObjectId userB)) (messages w)"
  have same: "arrange1 ?sel = arrange2 ?sel"
    using assms(3,4,5) by (rule newestFirstOf_unique)
  have "getConversationUnder arrange2 w userB userA limit skip
      = getConversationUnder arrange2 w userA userB limit skip"
    by (rule getConversationUnder_swap)
  then show ?thesis
    using assms(1,2) same by (simp add: getConversationUnder_shape)
qed

lemma sample_selected:
  "filter (exchanged alice bob) (messages world0) = [msg1, msg2]"
  "filter (exchanged alice bob) (messages tieWorld) = [tie1, tie2]"
proof -
  show "filter (exchanged alice bob) (messages world0) = [msg1, msg2]"
    by (simp add: world0_def sample_exchanged)
  have "exchanged alice bob tie1" "exchanged alice bob tie2"
    by (simp_all add: exchanged_def tie1_def tie2_def doubleton_eq_iff)
  then show "filter (exchanged alice bob) (messages tieWorld) = [tie1, tie2]"
    by (simp add: tieWorld_def)
qed

theorem getConversation_symmetric_distinct_times_witness:
  "isValid alice \<and> isValid bob
   \<and> newestFirstOf (filter (exchanged alice bob) (messages world0))
        (sortNewestFirst (filter (exchanged alice bob) (messages world0)))
   \<and> newestFirstOf (filter (exchanged alice bob) (messages world0))
        (tiesLastFirst (filter (exchanged alice bob) (messages world0)))
   \<and> distinct (map createdAt (filter (exchanged alice bob) (messages world0)))
   \<and> getConversationUnder sortNewestFirst world0 alice bob 5 0
        = Inr [populateFromTo world0 msg1, populateFromTo world0 msg2]
   \<and> getConversationUnder tiesLastFirst world0 bob alice 5 0
        = Inr [populateFromTo world0 msg1, populateFromTo world0 msg2]"
proof -
  let ?sel = "filter (exchanged alice bob) (messages world0)"
  have a1: "newestFirstOf ?sel (sortNewestFirst ?sel)" by (rule sortNewestFirst_admissible)
  have a2: "newestFirstOf ?sel (tiesLastFirst ?sel)" by (rule tiesLastFirst_admissible)
  have d: "distinct (map createdAt ?sel)" by (simp add: sample_selected sample_created)
  have one: "getConversationUnder sortNewestFirst world0 alice bob 5 0
        = Inr [populateFromTo world0 msg1, populateFromTo world0 msg2]"
    by (simp add: getConversationUnder_shape sample_valid sample_oid sample_selected
          sortNewestFirst_def sample_created limit_docs_def)
  from getConversation_symmetric_distinct_times
         [of alice bob world0 sortNewestFirst tiesLastFirst 5 0] a1 a2 d one
  have two: "getConversationUnder tiesLastFirst world0 bob alice 5 0
        = Inr [populateFromTo world0 msg1, populateFromTo world0 msg2]"
    by (auto simp: sample_valid sample_oid)
  from a1 a2 d one two sample_valid(1) sample_valid(2) show ?thesis by simp
qed

text \<open>
  The sentence as the specification has it, for every pair of users, fails when two
  of their messages were created in the same millisecond: both arrangements below are
  newest first, the store may give one to the first query and the other to the second,
  and the two lists then differ in their order, and the two pages of size one in the
  message they hold.
\<close>

theorem getConversation_symmetric_tie_counterexample:
  "isValid alice \<and> isValid bob
   \<and> newestFirstOf (filter (exchanged alice bob) (messages tieWorld))
        (sortNewestFirst (filter (exchanged alice bob) (messages tieWorld)))
   \<and> newestFirstOf (filter (exchanged alice bob) (messages tieWorld))
        (tiesLastFirst (filter (exchanged alice bob) (messages tieWorld)))
   \<and> getConversationUnder sortNewestFirst tieWorld alice bob 50 0
        = Inr [populateFromTo tieWorld tie2, populateFromTo tieWorld tie1]
   \<and> getConversationUnder tiesLastFirst tieWorld bob alice 50 0
        = Inr [populateFromTo tieWorld tie1, populateFromTo tieWorld tie2]
   \<and> getConversationUnder sortNewestFirst tieWorld alice bob 50 0
        \<noteq> getConversationUnder tiesLastFirst tieWorld bob alice 50 0
   \<and> getConversationUnder sortNewestFirst tieWorld alice bob 1 0
        = Inr [populateFromTo tieWorld tie1]
   \<and> getConversationUnder tiesLastFirst tieWorld bob alice 1 0
        = Inr [populateFromTo tieWorld tie2]"
proof -
  have t: "createdAt tie1 = 5000" "createdAt tie2 = 5000" "tie1 \<noteq> tie2"
    by (simp_all add: tie1_def tie2_def sample_ids)
  have sel2: "filter (exchanged bob alice) (messages tieWorld) = [tie1, tie2]"
    using sample_selected(2) by (simp add: exchanged_commute [of bob alice])
  have one: "getConversationUnder sortNewestFirst tieWorld alice bob 50 0
        = Inr [populateFromTo tieWorld tie2, populateFromTo tieWorld tie1]"
    by (simp add: getConversationUnder_shape sample_valid sample_oid sample_selected
          sortNewestFirst_def t limit_docs_def)
  have two: "getConversationUnder tiesLastFirst tieWorld bob alice 50 0
        = Inr [populateFromTo tieWorld tie1, populateFromTo tieWorld tie2]"
    by (simp add: getConversationUnder_shape sample_valid sample_oid sel2
          tiesLastFirst_def sortNewestFirst_def t limit_docs_def)
  have page1: "getConversationUnder sortNewestFirst tieWorld alice bob 1 0
        = Inr [populateFromTo tieWorld tie1]"
    by (simp add: getConversationUnder_shape sample_valid sample_oid sample_selected
          sortNewestFirst_def t limit_docs_def)
  have page2: "getConversationUnder tiesLastFirst tieWorld bob alice 1 0
        = Inr [populateFromTo tieWorld tie2]"
    by (simp add: getConversationUnder_shape sample_valid sample_oid sel2
          tiesLastFirst_def sortNewestFirst_def t limit_docs_def)
  have ne: "populateFromTo tieWorld tie2 \<noteq> populateFromTo tieWorld tie1"
    using t(3) by (auto simp: populateFromTo_def)
  show ?thesis
    using sortNewestFirst_admissible tiesLastFirst_admissible one two page1 page2 ne
      sample_valid(1) sample_valid(2)
    by simp
qed

section \<open>Invalid ids in the queries\<close>

text \<open>
  C10. For a user id that is not a valid ObjectId string, \<open>getUnreadCount\<close> returns 0,
  while \<open>getUnreadMessages\<close>, \<open>getInboxMessages\<close> and \<open>getConversation\<close> (with the id in
  either place) fail with a bad-request error.
\<close>

theorem getUnreadCount_invalid_id:
  assumes "\<not> isValid userId"
  shows "getUnreadCount w userId = Inr 0
     \<and> getUnreadMessages w userId = Inl (BadRequestException ''Invalid user ID'')
     \<and> getInboxMessages w userId limit skip = Inl (BadRequestException ''Invalid user ID'')
     \<and> getConversation w userId other limit skip = Inl (BadRequestException ''Invalid user IDs'')
     \<and> getConversation w other userId limit skip = Inl (BadRequestException ''Invalid user IDs'')"
  using assms
  by (simp add: getUnreadCount_def getUnreadMessages_def getInboxMessages_def
        getConversation_def)

theorem getUnreadCount_invalid_id_witness:
  "\<not> isValid ''invalid-id''
   \<and> getUnreadCount world0 ''invalid-id'' = Inr 0
   \<and> getUnreadMessages world0 ''invalid-id'' = Inl (BadRequestException ''Invalid user ID'')
   \<and> getInboxMessages world0 ''invalid-id'' 50 0 = Inl (BadRequestException ''Invalid user ID'')
   \<and> getConversation world0 ''invalid-id'' bob 50 0
        = Inl (BadRequestException ''Invalid user IDs'')"
  using getUnreadCount_invalid_id [OF sample_invalid, of world0 50 0 bob] sample_invalid
  by simp

section \<open>The chat list\<close>

lemma exchanged_iff:
  "exchanged u c m \<longleftrightarrow>
     ((from_id m = u \<or> to_id m = u) \<and> isDeleted m = False) \<and> counterpart u m = c"
  by (auto simp: exchanged_def counterpart_def doubleton_eq_iff)

lemma sum_unreadFlag:
  "sum_list (map (unreadFlag u) xs) = length (filter (\<lambda>x. to_id x = u \<and> read x = False) xs)"
  by (induction xs) (auto simp: unreadFlag_def)

lemma group_stage_keys: "g_id ` set (group_stage u xs) = counterpart u ` set xs"
proof (induction u xs rule: group_stage.induct)
  case (1 u)
  then show ?case by simp
next
  case (2 u m ms)
  then show ?case by auto
qed

lemma group_stage_distinct: "distinct (map g_id (group_stage u xs))"
proof (induction u xs rule: group_stage.induct)
  case (1 u)
  then show ?case by simp
next
  case (2 u m ms)
  have "counterpart u m \<notin> g_id ` set (group_stage u (filter (\<lambda>x. counterpart u x \<noteq> counterpart u m) ms))"
    unfolding group_stage_keys by auto
  with 2 show ?case by simp
qed

lemma filter_key_other:
  "k \<noteq> k0 \<Longrightarrow> filter (\<lambda>x. key x = k) (filter (\<lambda>x. key x \<noteq> k0) xs) = filter (\<lambda>x. key x = k) xs"
  by (induction xs) auto

lemma group_stage_member:
  "g \<in> set (group_stage u xs) \<Longrightarrow>
     (\<exists>rest. filter (\<lambda>x. counterpart u x = g_id g) xs = g_lastMessage g # rest) \<and>
     g_unreadCount g = sum_list (map (unreadFlag u) (filter (\<lambda>x. counterpart u x = g_id g) xs))"
proof (induction u xs rule: group_stage.induct)
  case (1 u)
  then show ?case by simp
next
  case (2 u m ms)
  let ?others = "filter (\<lambda>x. counterpart u x \<noteq> counterpart u m) ms"
  from "2.prems" consider
      (hd) "g = \<lparr>g_id = counterpart u m, g_lastMessage = m,
                 g_unreadCount = sum_list (map (unreadFlag u)
                    (m # filter (\<lambda>x. counterpart u x = counterpart u m) ms))\<rparr>"
    | (tl) "g \<in> set (group_stage u ?others)"
    by auto
  then show ?case
  proof cases
    case hd
    then show ?thesis by simp
  next
    case tl
    then have "g_id g \<in> counterpart u ` set ?others"
      using group_stage_keys[of u ?others] by blast
    then have ne: "g_id g \<noteq> counterpart u m" by auto
    have a: "filter (\<lambda>x. counterpart u x = g_id g) (m # ms)
            = filter (\<lambda>x. counterpart u x = g_id g) ms"
      using ne by auto
    have b: "filter (\<lambda>x. counterpart u x = g_id g) ?others
            = filter (\<lambda>x. counterpart u x = g_id g) ms"
      using ne by (rule filter_key_other)
    from "2.IH"[OF tl] show ?thesis unfolding a b .
  qed
qed

lemma sorted_filter_head:
  "sorted (map f xs) \<Longrightarrow> filter P xs = y # rest \<Longrightarrow> x \<in> set xs \<Longrightarrow> P x \<Longrightarrow> f y \<le> f x"
proof -
  assume s: "sorted (map f xs)" and h: "filter P xs = y # rest" and x: "x \<in> set xs" "P x"
  have "sorted (map f (filter P xs))" using s by (rule sorted_filter)
  then have "\<forall>z\<in>set rest. f y \<le> f z" using h by simp
  moreover have "x \<in> set (filter P xs)" using x by simp
  then have "x \<in> set (y # rest)" using h by simp
  ultimately show ?thesis by auto
qed

lemma lookup_unwind_filter:
  "map fst (lookup_unwind w gs) = filter (\<lambda>g. users w (g_id g) \<noteq> None) gs"
  by (induction gs) (auto simp: lookup_unwind_def split: option.splits)

lemma project_fields:
  "entry_userId (project (g, usr)) = g_id g"
  "entry_lastMessage (project (g, usr)) = view (g_lastMessage g)"
  "entry_unreadCount (project (g, usr)) = g_unreadCount g"
  by (simp_all add: project_def view_def)

lemma distinct_map_insort_key:
  "distinct (map g (insort_key f x xs)) = (g x \<notin> g ` set xs \<and> distinct (map g xs))"
  by (induction xs) (auto simp: set_insort_key)

lemma distinct_map_sort_key:
  "distinct (map g xs) \<Longrightarrow> distinct (map g (sort_key f xs))"
  by (induction xs) (auto simp: distinct_map_insort_key)


text \<open>
  C4. For a valid user id, \<open>getChatList\<close> returns at most one entry per counterpart;
  the last message of an entry is a non-deleted message exchanged with that counterpart
  and no such message was created later; the unread count of an entry is the number of
  non-deleted unread messages from that counterpart to the user; and the entries are
  ordered by the creation time of their last message, latest first. The counterparts
  listed are those that exchanged a non-deleted message with the user and are
  registered users.
\<close>

theorem getChatList_correct:
  assumes "isValid userId"
  shows "\<exists>entries. getChatList w userId = Inr entries
    \<and> distinct (map entry_userId entries)
    \<and> (\<forall>en\<in>set entries. \<exists>m\<in>set (messages w).
          exchanged (ObjectId userId) (entry_userId en) m
        \<and> entry_lastMessage en = view m
        \<and> (\<forall>m'\<in>set (messages w). exchanged (ObjectId userId) (entry_userId en) m'
              \<longrightarrow> createdAt m' \<le> createdAt m))
    \<and> (\<forall>en\<in>set entries.
          entry_unreadCount en = countUnreadFrom w (ObjectId userId) (entry_userId en))
    \<and> sorted_wrt (\<lambda>a b. lm_createdAt (entry_lastMessage b) \<le> lm_createdAt (entry_lastMessage a))
         entries
    \<and> set (map entry_userId entries) =
         {c. users w c \<noteq> None \<and> (\<exists>m\<in>set (messages w). exchanged (ObjectId userId) c m)}"
proof -
  define u where "u = ObjectId userId"
  define involves where "involves = (\<lambda>m::message. (from_id m = u \<or> to_id m = u) \<and> isDeleted m = False)"
  define matched where "matched = filter involves (messages w)"
  define srt where "srt = sortNewestFirst matched"
  define grouped where "grouped = group_stage u srt"
  define ordered where "ordered = sort_key (\<lambda>g. - createdAt (g_lastMessage g)) grouped"
  define kept where "kept = filter (\<lambda>g. users w (g_id g) \<noteq> None) ordered"
  define entries where "entries = map project (lookup_unwind w ordered)"
  have res: "getChatList w userId = Inr entries"
    using assms
    by (simp add: getChatList_def Let_def entries_def ordered_def grouped_def srt_def
        matched_def involves_def u_def)
  have set_srt: "set srt = {m \<in> set (messages w). involves m}"
    by (auto simp: srt_def sortNewestFirst_def matched_def)
  have sorted_srt: "sorted (map (\<lambda>m. - createdAt m) srt)"
    by (simp add: srt_def sortNewestFirst_def)
  have filter_srt: "\<And>Q. length (filter Q srt) = length (filter (\<lambda>m. involves m \<and> Q m) (messages w))"
    by (simp add: srt_def sortNewestFirst_def matched_def filter_sort conj_commute)
  have ids: "map entry_userId entries = map g_id kept"
    and lasts: "map entry_lastMessage entries = map (\<lambda>g. view (g_lastMessage g)) kept"
    unfolding entries_def kept_def lookup_unwind_filter[symmetric]
    by (auto simp: project_def view_def split: prod.splits)
  have kept_sub: "set kept \<subseteq> set grouped" by (auto simp: kept_def ordered_def)
  have d: "distinct (map entry_userId entries)"
    unfolding ids kept_def ordered_def grouped_def
    by (intro distinct_map_filter distinct_map_sort_key group_stage_distinct)
  have entry_group: "\<exists>g\<in>set kept. entry_userId en = g_id g \<and> entry_lastMessage en = view (g_lastMessage g)
        \<and> entry_unreadCount en = g_unreadCount g" if "en \<in> set entries" for en
  proof -
    from that obtain g usr where "(g, usr) \<in> set (lookup_unwind w ordered)" "en = project (g, usr)"
      by (auto simp: entries_def)
    moreover then have "g \<in> set kept"
      unfolding kept_def lookup_unwind_filter[symmetric] by force
    ultimately show ?thesis by (auto simp: project_fields)
  qed
  have last: "\<exists>m\<in>set (messages w). exchanged u (entry_userId en) m \<and> entry_lastMessage en = view m
        \<and> (\<forall>m'\<in>set (messages w). exchanged u (entry_userId en) m' \<longrightarrow> createdAt m' \<le> createdAt m)"
    and cnt: "entry_unreadCount en = countUnreadFrom w u (entry_userId en)"
    if "en \<in> set entries" for en
  proof -
    from entry_group[OF that] obtain g where g: "g \<in> set kept" "entry_userId en = g_id g"
       "entry_lastMessage en = view (g_lastMessage g)" "entry_unreadCount en = g_unreadCount g"
      by blast
    then have gg: "g \<in> set (group_stage u srt)" using kept_sub by (auto simp: grouped_def)
    from group_stage_member[OF gg] obtain rest where
      f: "filter (\<lambda>x. counterpart u x = g_id g) srt = g_lastMessage g # rest"
      and c: "g_unreadCount g = sum_list (map (unreadFlag u) (filter (\<lambda>x. counterpart u x = g_id g) srt))"
      by blast
    have "g_lastMessage g \<in> set (filter (\<lambda>x. counterpart u x = g_id g) srt)" using f by simp
    then have lm: "g_lastMessage g \<in> set (messages w)" "involves (g_lastMessage g)"
        "counterpart u (g_lastMessage g) = g_id g"
      using set_srt by auto
    have ex: "exchanged u (g_id g) (g_lastMessage g)"
      using lm by (simp add: exchanged_iff involves_def)
    have mx: "createdAt m' \<le> createdAt (g_lastMessage g)"
      if "m' \<in> set (messages w)" "exchanged u (g_id g) m'" for m'
    proof -
      from that have "m' \<in> set srt" "counterpart u m' = g_id g"
        using set_srt by (auto simp: exchanged_iff involves_def)
      from sorted_filter_head[OF sorted_srt f this] show ?thesis by simp
    qed
    show "\<exists>m\<in>set (messages w). exchanged u (entry_userId en) m \<and> entry_lastMessage en = view m
        \<and> (\<forall>m'\<in>set (messages w). exchanged u (entry_userId en) m' \<longrightarrow> createdAt m' \<le> createdAt m)"
      using lm(1) ex mx g(2,3) by auto
    have "g_unreadCount g = length (filter (\<lambda>x. to_id x = u \<and> read x = False)
             (filter (\<lambda>x. counterpart u x = g_id g) srt))"
      using c by (simp add: sum_unreadFlag)
    also have "\<dots> = length (filter (\<lambda>m. counterpart u m = g_id g \<and> to_id m = u \<and> read m = False) srt)"
      by (simp add: conj_commute conj_left_commute)
    also have "\<dots> = length (filter (\<lambda>m. involves m \<and> counterpart u m = g_id g \<and> to_id m = u \<and> read m = False) (messages w))"
      by (rule filter_srt)
    also have "\<dots> = countUnreadFrom w u (g_id g)"
      unfolding countUnreadFrom_def involves_def
      by (rule arg_cong[where f = length], rule filter_cong[OF refl]) (auto simp: counterpart_def)
    finally show "entry_unreadCount en = countUnreadFrom w u (entry_userId en)"
      using g(2,4) by simp
  qed
  have sorted_kept: "sorted (map (\<lambda>g. - createdAt (g_lastMessage g)) kept)"
    unfolding kept_def ordered_def by (intro sorted_filter sorted_sort_key)
  have "map (\<lambda>en. - lm_createdAt (entry_lastMessage en)) entries
          = map (\<lambda>g. - createdAt (g_lastMessage g)) kept"
    using lasts by (auto simp: list_eq_iff_nth_eq view_def dest!: arg_cong[where f = "\<lambda>xs. map lm_createdAt xs"])
  then have "sorted (map (\<lambda>en. - lm_createdAt (entry_lastMessage en)) entries)"
    using sorted_kept by simp
  then have so: "sorted_wrt (\<lambda>a b. lm_createdAt (entry_lastMessage b) \<le> lm_createdAt (entry_lastMessage a)) entries"
    by (simp add: sorted_wrt_map)
  have "set (map entry_userId entries) = {c \<in> g_id ` set grouped. users w c \<noteq> None}"
    unfolding ids kept_def ordered_def by auto
  also have "g_id ` set grouped = counterpart u ` {m \<in> set (messages w). involves m}"
    unfolding grouped_def group_stage_keys set_srt ..
  also have "{c \<in> counterpart u ` {m \<in> set (messages w). involves m}. users w c \<noteq> None}
       = {c. users w c \<noteq> None \<and> (\<exists>m\<in>set (messages w). exchanged u c m)}"
    by (auto simp: exchanged_iff involves_def)
  finally have cover: "set (map entry_userId entries) =
         {c. users w c \<noteq> None \<and> (\<exists>m\<in>set (messages w). exchanged u c m)}" .
  show ?thesis
    using res d last cnt so cover unfolding u_def by blast
qed

lemma sample_getChatList:
  "getChatList world0 alice =
     Inr [\<lparr>entry_userId = carol, entry_username = ''carol'', entry_email = ''carol@example.com'',
           entry_lastMessage = \<lparr>lm_content = ''ping'', lm_createdAt = 2500, lm_read = False\<rparr>,
           entry_unreadCount = 1\<rparr>,
          \<lparr>entry_userId = bob, entry_username = ''bob'', entry_email = ''bob@example.com'',
           entry_lastMessage = \<lparr>lm_content = ''hi'', lm_createdAt = 2000, lm_read = False\<rparr>,
           entry_unreadCount = 1\<rparr>]"
proof -
  have ne: "alice \<noteq> bob" "bob \<noteq> alice" "alice \<noteq> carol" "carol \<noteq> alice" "bob \<noteq> carol"
      "carol \<noteq> bob"
    by (simp_all add: sample_ids)
  have u: "users world0 = directory" and ms: "messages world0 = [msg1, msg2, msg3, msg4]"
    by (simp_all add: world0_def)
  have matched: "filter (\<lambda>m. (from_id m = alice \<or> to_id m = alice) \<and> isDeleted m = False)
       [msg1, msg2, msg3, msg4] = [msg1, msg2, msg4]"
    by (simp add: msg1_def msg2_def msg3_def msg4_def ne)
  have srt: "sortNewestFirst [msg1, msg2, msg4] = [msg4, msg2, msg1]"
    by (simp add: sortNewestFirst_def msg1_def msg2_def msg4_def)
  have key: "counterpart alice msg4 = carol" "counterpart alice msg2 = bob"
      "counterpart alice msg1 = bob"
    by (simp_all add: counterpart_def msg1_def msg2_def msg4_def ne)
  have flag: "unreadFlag alice msg4 = 1" "unreadFlag alice msg2 = 1" "unreadFlag alice msg1 = 0"
    by (simp_all add: unreadFlag_def msg1_def msg2_def msg4_def ne)
  have grouped: "group_stage alice [msg4, msg2, msg1] =
      [\<lparr>g_id = carol, g_lastMessage = msg4, g_unreadCount = 1\<rparr>,
       \<lparr>g_id = bob, g_lastMessage = msg2, g_unreadCount = 1\<rparr>]"
    by (simp add: key flag ne)
  have ordered: "sort_key (\<lambda>g. - createdAt (g_lastMessage g))
      [\<lparr>g_id = carol, g_lastMessage = msg4, g_unreadCount = 1\<rparr>,
       \<lparr>g_id = bob, g_lastMessage = msg2, g_unreadCount = 1\<rparr>]
     = [\<lparr>g_id = carol, g_lastMessage = msg4, g_unreadCount = 1\<rparr>,
        \<lparr>g_id = bob, g_lastMessage = msg2, g_unreadCount = 1\<rparr>]"
    by (simp add: msg2_def msg4_def)
  show ?thesis
    unfolding getChatList_def Let_def sample_oid ms matched srt grouped ordered
    by (simp add: sample_valid lookup_unwind_def sample_users project_def msg2_def msg4_def)
qed

theorem getChatList_correct_witness:
  "isValid alice
   \<and> (\<exists>first second. getChatList world0 alice = Inr [first, second]
        \<and> entry_userId first = carol \<and> entry_userId second = bob
        \<and> entry_unreadCount first = countUnreadFrom world0 alice carol
        \<and> entry_unreadCount second = countUnreadFrom world0 alice bob
        \<and> entry_lastMessage first = view msg4 \<and> entry_lastMessage second = view msg2
        \<and> lm_createdAt (entry_lastMessage second) \<le> lm_createdAt (entry_lastMessage first))"
proof -
  from getChatList_correct [OF sample_valid(1), of world0]
  obtain entries where e: "getChatList world0 alice = Inr entries"
    and c: "\<forall>en\<in>set entries.
          entry_unreadCount en = countUnreadFrom world0 (ObjectId alice) (entry_userId en)"
    and s: "sorted_wrt (\<lambda>a b. lm_createdAt (entry_lastMessage b) \<le> lm_createdAt (entry_lastMessage a))
         entries"
    by blast
  from e obtain first second where fs: "entries = [first, second]"
      "entry_userId first = carol" "entry_userId second = bob"
      "entry_lastMessage first = view msg4" "entry_lastMessage second = view msg2"
    by (auto simp: sample_getChatList view_def msg2_def msg4_def)
  from c s fs e have "getChatList world0 alice = Inr [first, second]
        \<and> entry_userId first = carol \<and> entry_userId second = bob
        \<and> entry_unreadCount first = countUnreadFrom world0 alice carol
        \<and> entry_unreadCount second = countUnreadFrom world0 alice bob
        \<and> entry_lastMessage first = view msg4 \<and> entry_lastMessage second = view msg2
        \<and> lm_createdAt (entry_lastMessage second) \<le> lm_createdAt (entry_lastMessage first)"
    by (simp add: sample_oid)
  then show ?thesis using sample_valid(1) by blast
qed

section \<open>The delivery consumer\<close>

text \<open>
  C8. Whatever steps of the pipeline raise, \<open>handleMessageSent\<close> returns normally
  and acknowledges the event exactly once: the delivery tag is appended once to the
  acknowledgements. Nothing is published back to the queue, so the event is neither
  retried nor dead-lettered, and a raise is written to the error log.
\<close>

theorem handleMessageSent_acks_once:
  "\<exists>w1. handleMessageSent faults e w pl originalMsg = (Inr (), w1)
     \<and> acked w1 = acked w @ [originalMsg]
     \<and> queue w1 = queue w
     \<and> stderr w1 = (if noFault faults then stderr w
                     else stderr w @ [''Error processing messages:''])"
proof (cases "faults MarkDelivered")
  case None
  then show ?thesis
    unfolding handleMessageSent_def pipeline_def andThen_def attempt_def markAsDelivered_def
      sendPushNotification_def notifyReceiverViaWebSocker_def logMessageAnalytics_def ack_def
      console_error_def noFault_def
    by (auto split: option.splits prod.splits)
next
  case (Some err)
  then show ?thesis
    unfolding handleMessageSent_def pipeline_def andThen_def attempt_def ack_def
      console_error_def noFault_def
    by simp
qed

theorem handleMessageSent_acks_once_witness:
  "acked (snd (handleMessageSent (\<lambda>s. None) env1 world0 event0 7)) = [7]
   \<and> stderr (snd (handleMessageSent (\<lambda>s. None) env1 world0 event0 7)) = []
   \<and> acked (snd (handleMessageSent pushFails env1 world0 event0 7)) = [7]
   \<and> stderr (snd (handleMessageSent pushFails env1 world0 event0 7))
       = [''Error processing messages:'']
   \<and> fst (handleMessageSent pushFails env1 world0 event0 7) = Inr ()"
proof -
  have n: "noFault (\<lambda>s. None)" "\<not> noFault pushFails"
    by (simp_all add: noFault_def pushFails_def)
  have w: "acked world0 = []" "stderr world0 = []" by (simp_all add: world0_def)
  from handleMessageSent_acks_once [of "\<lambda>s. None" env1 world0 event0 7]
       handleMessageSent_acks_once [of pushFails env1 world0 event0 7]
  show ?thesis using n w by auto
qed

end
